theory Spec2Isabelle
  imports Complex_Main
begin

section \<open>JavaScript values used by the handlers of server.js\<close>

text \<open>
  A property that may be missing or \<^verbatim>\<open>null\<close> is an \<open>option\<close>; where the code
  tells a missing property from \<^verbatim>\<open>null\<close> (the derived fields of an upload, the
  body of the notify request) the two are kept apart. Truthiness follows JavaScript:
  the empty string, \<^verbatim>\<open>0\<close>, \<^verbatim>\<open>false\<close>, \<^verbatim>\<open>null\<close> and \<^verbatim>\<open>undefined\<close>
  are falsy.
\<close>

definition truthy_str :: "string option \<Rightarrow> bool" where
  "truthy_str v = (case v of None \<Rightarrow> False | Some s \<Rightarrow> s \<noteq> [])"

definition truthy_int :: "int option \<Rightarrow> bool" where
  "truthy_int v = (case v of None \<Rightarrow> False | Some n \<Rightarrow> n \<noteq> 0)"

definition truthy_real :: "real option \<Rightarrow> bool" where
  "truthy_real v = (case v of None \<Rightarrow> False | Some x \<Rightarrow> x \<noteq> 0)"

definition truthy_bool :: "bool option \<Rightarrow> bool" where
  "truthy_bool v = (case v of None \<Rightarrow> False | Some b \<Rightarrow> b)"

text \<open>\<^verbatim>\<open>a || b\<close> on strings, and \<^verbatim>\<open>a || null\<close>.\<close>

definition or_str :: "string option \<Rightarrow> string option \<Rightarrow> string option" where
  "or_str a b = (if truthy_str a then a else b)"

definition or_int :: "int option \<Rightarrow> int option \<Rightarrow> int option" where
  "or_int a b = (if truthy_int a then a else b)"

text \<open>
  The text handed to \<^verbatim>\<open>parseFloat\<close> is a JavaScript string: a list of UTF-16 code
  units. \<open>units\<close> gives the code units of an ASCII text.
\<close>

type_synonym jstext = "nat list"

definition units :: "string \<Rightarrow> jstext" where
  "units t = map of_char t"

definition truthy_text :: "jstext option \<Rightarrow> bool" where
  "truthy_text v = (case v of None \<Rightarrow> False | Some t \<Rightarrow> t \<noteq> [])"

text \<open>
  A JavaScript number as far as the handlers tell numbers apart: \<^verbatim>\<open>NaN\<close>, the two
  infinities, and \<open>Finite q\<close>, the double nearest to the rational \<open>q\<close> (the rounding
  itself is not computed).
\<close>

datatype jsnum = NaN | PosInfinity | NegInfinity | Finite rat

definition isDigit :: "nat \<Rightarrow> bool" where
  "isDigit c = (48 \<le> c \<and> c \<le> 57)"

text \<open>
  White space and line terminators of ECMAScript: TAB, LF, VT, FF, CR, SP, NBSP, the
  space separators U+1680, U+2000 to U+200A, U+202F, U+205F, U+3000, the line and
  paragraph separators U+2028 and U+2029, and U+FEFF.
\<close>

definition isStrWhiteSpace :: "nat \<Rightarrow> bool" where
  "isStrWhiteSpace c =
     (c \<in> {9, 10, 11, 12, 13, 32, 160, 5760, 8232, 8233, 8239, 8287, 12288, 65279} \<or>
      (8192 \<le> c \<and> c \<le> 8202))"

definition digits_val :: "jstext \<Rightarrow> nat" where
  "digits_val ds = foldl (\<lambda>a d. 10 * a + (d - 48)) 0 ds"

text \<open>
  The exponent part that may follow the digits: \<^verbatim>\<open>e\<close> or \<^verbatim>\<open>E\<close>, an optional
  sign, and at least one digit; anything else is not part of the number.
\<close>

definition exponent_of :: "jstext \<Rightarrow> int" where
  "exponent_of r =
     (case r of
        [] \<Rightarrow> 0
      | c # r1 \<Rightarrow>
          if c = 101 \<or> c = 69 then
            (case r1 of
               [] \<Rightarrow> 0
             | d # r2 \<Rightarrow>
                 if d = 45 then
                   (if takeWhile isDigit r2 = [] then 0 else - int (digits_val (takeWhile isDigit r2)))
                 else if d = 43 then int (digits_val (takeWhile isDigit r2))
                 else int (digits_val (takeWhile isDigit r1)))
          else 0)"

definition scale10 :: "rat \<Rightarrow> int \<Rightarrow> rat" where
  "scale10 q e = (if e \<ge> 0 then q * 10 ^ nat e else q / 10 ^ nat (- e))"

text \<open>The least magnitude that rounds to an infinity: \<open>2^1024 - 2^970\<close>.\<close>

definition overflows :: "rat \<Rightarrow> bool" where
  "overflows q = (q \<ge> 2 ^ 1024 - 2 ^ 970)"

text \<open>
  \<^verbatim>\<open>parseFloat(s)\<close> of ECMAScript: leading white space is dropped, and the value
  is that of the longest prefix of the rest that is a decimal literal (an optional sign,
  then \<^verbatim>\<open>Infinity\<close>, or digits with an optional fraction and exponent);
  \<^verbatim>\<open>NaN\<close> when there is none. An argument that is not a string is converted with
  ToString first, so a JSON number is given here by its text.
\<close>

definition parseFloat :: "jstext \<Rightarrow> jsnum" where
  "parseFloat s =
     (let t = dropWhile isStrWhiteSpace s;
          neg = (case t of [] \<Rightarrow> False | c # _ \<Rightarrow> c = 45);
          u = (case t of
                 [] \<Rightarrow> t
               | c # r \<Rightarrow> if c = 43 \<or> c = 45 then r else t)
      in if take 8 u = units ''Infinity'' then (if neg then NegInfinity else PosInfinity)
         else
           (let ip = takeWhile isDigit u;
                r1 = dropWhile isDigit u;
                dot = (case r1 of [] \<Rightarrow> False | c # _ \<Rightarrow> c = 46);
                fp = (if dot then takeWhile isDigit (tl r1) else []);
                r2 = (if dot then dropWhile isDigit (tl r1) else r1)
            in if ip = [] \<and> fp = [] then NaN
               else
                 (let q = scale10 (of_nat (digits_val (ip @ fp)))
                            (exponent_of r2 - int (length fp))
                  in if overflows q then (if neg then NegInfinity else PosInfinity)
                     else Finite (if neg then - q else q))))"

text \<open>
  \<^verbatim>\<open>JSON.stringify\<close> writes a number that is not finite as \<^verbatim>\<open>null\<close>; \<^verbatim>\<open>res.json\<close>
  and \<^verbatim>\<open>writeData\<close> both go through it.
\<close>

definition json_num :: "jsnum option \<Rightarrow> jsnum option" where
  "json_num v = (case v of Some (Finite q) \<Rightarrow> Some (Finite q) | _ \<Rightarrow> None)"

section \<open>The data file: inspections, uploads, VIN records\<close>

record fraud_result =
  inspectionId_r :: string
  vin_r :: "string option"
  score :: int
  level :: string
  autoFlag :: bool
  flags :: "string list"
  timestamp_r :: int

record report_info =
  path_r :: string
  createdAt_r :: int
  emailed :: "bool option"
  emailedAt :: "int option"
  emailedTo :: "string option"
  emailError :: "string option"

record chat_entry =
  timestamp_c :: string
  message_c :: string
  reply_c :: string

record ai_report =
  markdown :: string
  generatedAt :: int
  reviewed :: bool
  reviewedAt :: "int option"
  reviewedBy :: "string option"

text \<open>
  An inspection as \<^verbatim>\<open>POST /api/inspections\<close> creates it, with the properties
  that later handlers read or set. \<open>vin\<close>, \<open>sellerZip\<close>, \<open>odometerReading\<close> and
  \<open>sellerDisclosedDamage\<close> are read by the scoring engine; no handler sets them, so
  they are missing unless the data file has them. \<open>tire\<close> is the body of the tire
  request, kept by its JSON text. Of the keys of the two generic updates, \<open>buyerZip\<close>,
  \<open>vehicle\<close> and \<open>flagReason\<close>, which no handler here reads, are left out.
\<close>

record inspection =
  id_i :: string
  orderId :: "string option"
  buyerEmail :: "string option"
  sellerPhone :: "string option"
  sellerEmail :: "string option"
  price :: "string option"
  notes_i :: "string option"
  tokenHash :: string
  tokenExpiry :: int
  status :: string
  createdAt :: int
  updatedAt :: "int option"
  vin :: "string option"
  sellerZip :: "string option"
  odometerReading :: "int option"
  sellerDisclosedDamage :: "bool option"
  fraudScore :: "fraud_result option"
  aiReport :: "ai_report option"
  tire :: "string option"
  report :: "report_info option"
  chatHistory :: "chat_entry list option"

record exif_gps =
  gps_lat :: real
  gps_lng :: real

record exif_info =
  gps :: "exif_gps option"
  timestamp_e :: "int option"
  make_e :: "string option"
  model_e :: "string option"
  orientation :: "int option"

record quality_info =
  width :: int
  height :: int
  avgLuminance :: "int option"
  isDark :: bool
  isLowRes :: bool
  warnings :: "string list"

record prediction =
  class_p :: string
  confidence :: real

record detection_info =
  timestamp_d :: int
  predictions :: "prediction list option"

record manual_detection =
  provider :: string
  model_d :: string
  version_d :: string
  result_d :: "prediction list option"
  detectedAt :: int

text \<open>
  The \<^verbatim>\<open>detection\<close> of an upload has one of two shapes: the one the upload handler
  attaches (\<^verbatim>\<open>timestamp\<close>, \<^verbatim>\<open>predictions\<close>), and the one of
  \<^verbatim>\<open>POST /api/roboflow/detect\<close>, which keeps the whole answer under \<^verbatim>\<open>result\<close>
  and has no \<^verbatim>\<open>predictions\<close> property of its own.
\<close>

datatype detection = AutoDetection detection_info | ManualDetection manual_detection

text \<open>
  An upload entry. For \<open>exif\<close> and \<open>quality\<close>, \<open>None\<close> is a property that was
  never assigned (JSON leaves it out), \<open>Some None\<close> is an explicit \<^verbatim>\<open>null\<close>.
  For \<open>detection\<close> and \<open>ocrVin\<close>, \<open>None\<close> is a missing property. For \<open>lat\<close>,
  \<open>lng\<close> and \<open>accuracy\<close>, \<open>None\<close> is \<^verbatim>\<open>null\<close>.
\<close>

record upload =
  id_u :: string
  inspectionId :: string
  filename :: string
  originalname :: string
  mimetype :: string
  size_u :: "int option"
  path :: string
  s3Url :: "string option"
  checkItem :: "string option"
  lat :: "jsnum option"
  lng :: "jsnum option"
  accuracy :: "jsnum option"
  uploadedAt :: int
  exif :: "exif_info option option"
  quality :: "quality_info option option"
  detection :: "detection option"
  ocrVin :: "string option"

record odometer_reading =
  mileage :: "int option"

record odometer_info =
  lastReading :: "odometer_reading option"

record ownership_info =
  count_o :: int

text \<open>
  A VIN record, with the two sub-objects the scoring engine reads from it.
  \<^verbatim>\<open>POST /api/vin-records\<close> itself stores neither.
\<close>

record vin_record =
  id_v :: string
  vin_v :: string
  odometer :: "odometer_info option"
  ownership :: "ownership_info option"
  timestamp_v :: int
  createdAt_v :: int

text \<open>
  The document of data.json. \<open>vinRecords\<close> is missing until the first VIN record is
  saved. A handler takes the document \<^verbatim>\<open>readData\<close> parses and returns the one its
  last \<^verbatim>\<open>writeData\<close> left in the file, so what it holds has been through
  \<^verbatim>\<open>JSON.stringify\<close>. Handlers run one at a time. \<open>init_store\<close> is the file the
  server creates when there is none.
\<close>

record store =
  inspections :: "inspection list"
  uploads :: "upload list"
  vinRecords :: "vin_record list option"

definition init_store :: store where
  "init_store = \<lparr>inspections = [], uploads = [], vinRecords = None\<rparr>"

text \<open>
  \<^verbatim>\<open>insp\<close> is a reference to the first inspection with the requested id; an
  assignment to one of its properties changes that element of the list.
\<close>

fun update_first :: "('a \<Rightarrow> bool) \<Rightarrow> ('a \<Rightarrow> 'a) \<Rightarrow> 'a list \<Rightarrow> 'a list" where
  "update_first P f [] = []"
| "update_first P f (x # xs) = (if P x then f x # xs else x # update_first P f xs)"

definition find_insp :: "store \<Rightarrow> string \<Rightarrow> inspection option" where
  "find_insp s rid = find (\<lambda>x. id_i x = rid) (inspections s)"

definition set_insp :: "string \<Rightarrow> (inspection \<Rightarrow> inspection) \<Rightarrow> store \<Rightarrow> store" where
  "set_insp rid f s = s\<lparr>inspections := update_first (\<lambda>x. id_i x = rid) f (inspections s)\<rparr>"

section \<open>Errors of the handlers\<close>

text \<open>
  Each early \<^verbatim>\<open>return res.status(..).json({ error: .. })\<close> is one error value;
  \<open>http_status\<close> gives the status the code sends. \<open>ServerError\<close> is the answer of
  Express to an exception thrown by a handler that is not \<^verbatim>\<open>async\<close>;
  \<open>Unanswered\<close> is an \<^verbatim>\<open>async\<close> handler that threw outside its \<^verbatim>\<open>try\<close>, after
  which no response is sent.
\<close>

datatype error =
    NotFound
  | MissingToken
  | InvalidToken
  | TokenExpired
  | NoFile
  | MissingKeyOrFilename
  | NoAiReport
  | VinRequired
  | ServerError
  | Unanswered
  | NotConfigured
  | UploadNotFound
  | NoImageUrl
  | DetectFailed
  | PuppeteerMissing
  | PdfFailed
  | EmailFailed
  | MessageRequired
  | ChatFailed
  | ReportFailed

fun http_status :: "error \<Rightarrow> nat option" where
  "http_status NotFound = Some 404"
| "http_status MissingToken = Some 400"
| "http_status InvalidToken = Some 403"
| "http_status TokenExpired = Some 403"
| "http_status NoFile = Some 400"
| "http_status MissingKeyOrFilename = Some 400"
| "http_status NoAiReport = Some 400"
| "http_status VinRequired = Some 400"
| "http_status ServerError = Some 500"
| "http_status Unanswered = None"
| "http_status NotConfigured = Some 503"
| "http_status UploadNotFound = Some 404"
| "http_status NoImageUrl = Some 400"
| "http_status DetectFailed = Some 500"
| "http_status PuppeteerMissing = Some 501"
| "http_status PdfFailed = Some 500"
| "http_status EmailFailed = Some 500"
| "http_status MessageRequired = Some 400"
| "http_status ChatFailed = Some 500"
| "http_status ReportFailed = Some 500"

section \<open>Token validation\<close>

text \<open>
  The four checks that the validate, upload and notify handlers each write out in the
  same order: the inspection exists, a token was presented, its hash is the stored one,
  the token has not expired. \<open>hashToken\<close> (SHA-256, hex) is a parameter. \<open>qt\<close> is
  \<^verbatim>\<open>req.query.t\<close>, \<open>xt\<close> the \<^verbatim>\<open>x-token\<close> header, \<open>now\<close> the reading of
  \<^verbatim>\<open>Date.now()\<close>.
\<close>

definition token_checks ::
  "(string \<Rightarrow> string) \<Rightarrow> store \<Rightarrow> string \<Rightarrow> string option \<Rightarrow> string option \<Rightarrow> int
     \<Rightarrow> error + inspection" where
  "token_checks hashToken s rid qt xt now =
     (let token = or_str qt xt in
      case find_insp s rid of
        None \<Rightarrow> Inl NotFound
      | Some insp \<Rightarrow>
          if \<not> truthy_str token then Inl MissingToken
          else if hashToken (the token) \<noteq> tokenHash insp then Inl InvalidToken
          else if now > tokenExpiry insp then Inl TokenExpired
          else Inr insp)"

record validate_ok =
  ok_id :: string
  ok_orderId :: "string option"

text \<open>\<^verbatim>\<open>GET /api/inspections/:id/validate\<close>\<close>

definition validate ::
  "(string \<Rightarrow> string) \<Rightarrow> store \<Rightarrow> string \<Rightarrow> string option \<Rightarrow> string option \<Rightarrow> int
     \<Rightarrow> error + validate_ok" where
  "validate hashToken s rid qt xt now =
     (case token_checks hashToken s rid qt xt now of
        Inl e \<Rightarrow> Inl e
      | Inr insp \<Rightarrow> Inr \<lparr>ok_id = id_i insp, ok_orderId = orderId insp\<rparr>)"

section \<open>Upload intake\<close>

text \<open>
  What the handler gets from outside: the request, and the outcome of each call it makes
  into a library or the network. \<open>file_info\<close> is \<^verbatim>\<open>req.file\<close> as multer leaves it
  after storing the bytes; \<open>upload_body\<close> the text fields of the multipart form (all
  \<open>None\<close> when \<^verbatim>\<open>req.body\<close> is missing), each sent under its plain name, so
  that its value is a string; the coordinates are kept as JavaScript strings.
\<close>

record file_info =
  f_filename :: string
  f_originalname :: string
  f_mimetype :: string
  f_size :: int

record upload_body =
  b_checkItem :: "string option"
  b_lat :: "jstext option"
  b_lng :: "jstext option"
  b_accuracy :: "jstext option"

record upload_req =
  r_id :: string
  r_query_t :: "string option"
  r_x_token :: "string option"
  r_file :: "file_info option"
  r_body :: upload_body

text \<open>
  \<^verbatim>\<open>upload.single('file')\<close> runs before the handler: when the request carries a file,
  multer has written it under \<^verbatim>\<open>uploads/\<close> with this name by the time the token is
  checked, and no branch of the handler removes it. The directory is not part of the
  document.
\<close>

definition stored_by_multer :: "upload_req \<Rightarrow> string option" where
  "stored_by_multer req = map_option f_filename (r_file req)"

record exif_tags =
  GPSLatitude :: "real option"
  GPSLongitude :: "real option"
  DateTimeOriginal :: "int option"
  DateTime :: "int option"
  Make :: "string option"
  Model :: "string option"
  Orientation :: "int option"

text \<open>
  \<open>ExifThrows\<close>: \<^verbatim>\<open>exifParser.create(..).parse()\<close> threw. \<open>ExifParsed t\<close>: it returned,
  with \<^verbatim>\<open>exifData.tags\<close> equal to \<open>t\<close>.
\<close>

datatype exif_outcome = ExifThrows | ExifParsed "exif_tags option"

text \<open>
  \<open>SharpThrows\<close>: one of the three awaited sharp calls rejected. \<open>SharpOk w h ms\<close>:
  \<^verbatim>\<open>metadata.width\<close>, \<^verbatim>\<open>metadata.height\<close> and the means of \<^verbatim>\<open>stats.channels\<close>.
\<close>

datatype sharp_outcome = SharpThrows | SharpOk int int "real list"

text \<open>
  The awaited \<^verbatim>\<open>fetchJsonViaHttps(roboflowUrl)\<close>: rejected, or resolved with a body
  whose \<^verbatim>\<open>predictions\<close> is the given list (\<open>None\<close> when the body or the property is
  falsy; an empty array is truthy).
\<close>

datatype fetch_outcome = FetchRejected | FetchResolved "prediction list option"

record upload_env =
  new_id :: string
  now_check :: int
  now_upload :: int
  now_detect :: int
  readable :: bool
  exif_out :: exif_outcome
  sharp_out :: sharp_outcome
  roboflow_configured :: bool
  fetch_out :: fetch_outcome

text \<open>\<^verbatim>\<open>req.body && req.body.lat ? parseFloat(req.body.lat) : null\<close>\<close>

definition coerce_field :: "jstext option \<Rightarrow> jsnum option" where
  "coerce_field v = (if truthy_text v then Some (parseFloat (the v)) else None)"

text \<open>The object literal \<^verbatim>\<open>uploadEntry\<close> of the upload handler.\<close>

definition upload_entry :: "upload_req \<Rightarrow> upload_env \<Rightarrow> file_info \<Rightarrow> upload" where
  "upload_entry req env f =
     \<lparr>id_u = new_id env,
      inspectionId = r_id req,
      filename = f_filename f,
      originalname = f_originalname f,
      mimetype = f_mimetype f,
      size_u = Some (f_size f),
      path = ''/uploads/'' @ f_filename f,
      s3Url = None,
      checkItem = (if truthy_str (b_checkItem (r_body req)) then b_checkItem (r_body req) else None),
      lat = coerce_field (b_lat (r_body req)),
      lng = coerce_field (b_lng (r_body req)),
      accuracy = coerce_field (b_accuracy (r_body req)),
      uploadedAt = now_upload env,
      exif = None,
      quality = None,
      detection = None,
      ocrVin = None\<rparr>"

text \<open>The inner \<^verbatim>\<open>try\<close> around the EXIF parser.\<close>

definition with_exif :: "exif_outcome \<Rightarrow> upload \<Rightarrow> upload" where
  "with_exif out u =
     (case out of
        ExifThrows \<Rightarrow> u\<lparr>exif := Some None\<rparr>
      | ExifParsed None \<Rightarrow> u
      | ExifParsed (Some t) \<Rightarrow>
          u\<lparr>exif := Some (Some
            \<lparr>gps = (if truthy_real (GPSLatitude t) \<and> truthy_real (GPSLongitude t)
                     then Some \<lparr>gps_lat = the (GPSLatitude t), gps_lng = the (GPSLongitude t)\<rparr>
                     else None),
             timestamp_e = or_int (or_int (DateTimeOriginal t) (DateTime t)) None,
             make_e = or_str (Make t) None,
             model_e = or_str (Model t) None,
             orientation = or_int (Orientation t) None\<rparr>)\<rparr>)"

text \<open>
  The inner \<^verbatim>\<open>try\<close> around sharp. The mean of no channels is \<^verbatim>\<open>0/0\<close>, that is
  \<^verbatim>\<open>NaN\<close>: not below 40, and kept as \<open>None\<close>. \<^verbatim>\<open>Math.round\<close> rounds half up.
\<close>

definition quality_of :: "int \<Rightarrow> int \<Rightarrow> real list \<Rightarrow> quality_info" where
  "quality_of w h ms =
     (let dark = (ms \<noteq> [] \<and> sum_list ms / real (length ms) < 40);
          lowRes = (w < 800 \<or> h < 600)
      in \<lparr>width = w,
          height = h,
          avgLuminance = (if ms = [] then None
                          else Some \<lfloor>sum_list ms / real (length ms) + 1 / 2\<rfloor>),
          isDark = dark,
          isLowRes = lowRes,
          warnings = (if dark then [''Photo may be too dark''] else []) @
                     (if lowRes then [''Resolution below 800x600''] else [])\<rparr>)"

definition with_quality :: "sharp_outcome \<Rightarrow> upload \<Rightarrow> upload" where
  "with_quality out u =
     (case out of
        SharpThrows \<Rightarrow> u\<lparr>quality := Some None\<rparr>
      | SharpOk w h ms \<Rightarrow> u\<lparr>quality := Some (Some (quality_of w h ms))\<rparr>)"

text \<open>
  The outer \<^verbatim>\<open>try\<close>: when \<^verbatim>\<open>fs.readFileSync\<close> throws, neither analysis runs and
  neither property is assigned.
\<close>

definition analyse :: "upload_env \<Rightarrow> upload \<Rightarrow> upload" where
  "analyse env u =
     (if readable env then with_quality (sharp_out env) (with_exif (exif_out env) u) else u)"

text \<open>
  The Roboflow block. The handler awaits the call, so the entry it goes on with is the
  one after the call has settled. The \<^verbatim>\<open>image\<close> property of the detection, copied
  from the answer and read by no handler, is left out.
\<close>

definition auto_detect :: "upload_env \<Rightarrow> upload \<Rightarrow> upload" where
  "auto_detect env u =
     (if roboflow_configured env \<and> truthy_str (checkItem u) then
        (case fetch_out env of
           FetchRejected \<Rightarrow> u
         | FetchResolved None \<Rightarrow> u
         | FetchResolved (Some ps) \<Rightarrow>
             u\<lparr>detection := Some (AutoDetection
                \<lparr>timestamp_d = now_detect env, predictions = Some ps\<rparr>)\<rparr>)
      else u)"

text \<open>
  The entry as \<^verbatim>\<open>JSON.stringify\<close> writes it, into the response and into the file: a
  coordinate that is not a finite number becomes \<^verbatim>\<open>null\<close>; a property that was never
  assigned stays missing.
\<close>

definition to_json :: "upload \<Rightarrow> upload" where
  "to_json u = u\<lparr>lat := json_num (lat u), lng := json_num (lng u),
                  accuracy := json_num (accuracy u)\<rparr>"

text \<open>\<^verbatim>\<open>if (insp.status === 'pending') insp.status = 'submitted'\<close>\<close>

definition submit_if_pending :: "inspection \<Rightarrow> inspection" where
  "submit_if_pending i = (if status i = ''pending'' then i\<lparr>status := ''submitted''\<rparr> else i)"

text \<open>
  \<^verbatim>\<open>POST /api/inspections/:id/uploads\<close>: the response (an error, or the entry sent as
  \<^verbatim>\<open>file\<close>) and the document written last. The entry pushed onto \<^verbatim>\<open>data.uploads\<close>
  and the entry in the response are one object, so both show the detection when the
  Roboflow block attached one; the caller and the file see it as JSON.
\<close>

definition upload_handler ::
  "(string \<Rightarrow> string) \<Rightarrow> store \<Rightarrow> upload_req \<Rightarrow> upload_env \<Rightarrow> (error + upload) \<times> store" where
  "upload_handler hashToken s req env =
     (case token_checks hashToken s (r_id req) (r_query_t req) (r_x_token req) (now_check env) of
        Inl e \<Rightarrow> (Inl e, s)
      | Inr insp \<Rightarrow>
          (case r_file req of
             None \<Rightarrow> (Inl NoFile, s)
           | Some f \<Rightarrow>
               let uploadEntry = auto_detect env (analyse env (upload_entry req env f));
                   s1 = s\<lparr>uploads := uploads s @ [to_json uploadEntry]\<rparr>;
                   s2 = set_insp (r_id req) submit_if_pending s1
               in (Inr (to_json uploadEntry), s2)))"

text \<open>
  The route \<^verbatim>\<open>app.post('/api/inspections/:id/uploads', upload.single('file'), ...)\<close>:
  multer, then the handler. \<open>dir\<close> lists the names of the files under
  \<^verbatim>\<open>uploads/\<close>; the result is the response, the document and the directory.
\<close>

definition upload_route ::
  "(string \<Rightarrow> string) \<Rightarrow> store \<Rightarrow> string list \<Rightarrow> upload_req \<Rightarrow> upload_env
     \<Rightarrow> (error + upload) \<times> store \<times> string list" where
  "upload_route hashToken s dir req env =
     (let dir1 = dir @ (case stored_by_multer req of None \<Rightarrow> [] | Some name \<Rightarrow> [name])
      in (fst (upload_handler hashToken s req env), snd (upload_handler hashToken s req env), dir1))"

section \<open>Notification of a direct S3 upload\<close>

text \<open>
  A property of the JSON body: missing, \<^verbatim>\<open>null\<close>, or any other value. \<open>Val t\<close> is
  a value that \<^verbatim>\<open>parseFloat\<close> converts to the text \<open>t\<close> (a string is its own text,
  a number, a boolean, an array or a plain object has its ToString).
  \<open>Unconvertible\<close> is an object whose conversion throws a TypeError, such as
  \<^verbatim>\<open>{"toString": 1}\<close>, whose \<^verbatim>\<open>toString\<close> is not a function and whose
  \<^verbatim>\<open>valueOf\<close> returns the object. The other properties of the body are taken
  to be strings (the size a number) when they are present.
\<close>

datatype jsfield = Undefined | Null | Val jstext | Unconvertible

record notify_req =
  n_id :: string
  n_query_t :: "string option"
  n_x_token :: "string option"
  n_key :: "string option"
  n_filename :: "string option"
  n_mimetype :: "string option"
  n_size :: "int option"
  n_checkItem :: "string option"
  n_lat :: jsfield
  n_lng :: jsfield
  n_accuracy :: jsfield

record notify_env =
  new_id_n :: string
  now_check_n :: int
  now_upload_n :: int
  S3_BUCKET :: string
  S3_REGION :: string
  encodeURIComponent :: "string \<Rightarrow> string"

text \<open>\<^verbatim>\<open>lat !== undefined ? (lat === null ? null : parseFloat(lat)) : null\<close>\<close>

definition coerce_json :: "jsfield \<Rightarrow> jsnum option" where
  "coerce_json v =
     (case v of
        Undefined \<Rightarrow> None
      | Null \<Rightarrow> None
      | Val t \<Rightarrow> Some (parseFloat t)
      | Unconvertible \<Rightarrow> None)"

text \<open>
  \<^verbatim>\<open>parseFloat\<close> throws on an unconvertible value, while the object literal is being
  built: nothing is pushed or written, and the handler, which is not \<^verbatim>\<open>async\<close>, is
  answered by Express with status 500.
\<close>

definition coordinates_throw :: "notify_req \<Rightarrow> bool" where
  "coordinates_throw req =
     (n_lat req = Unconvertible \<or> n_lng req = Unconvertible \<or> n_accuracy req = Unconvertible)"

definition notify_entry :: "notify_req \<Rightarrow> notify_env \<Rightarrow> upload" where
  "notify_entry req env =
     \<lparr>id_u = new_id_n env,
      inspectionId = n_id req,
      filename = the (n_filename req),
      originalname = the (n_filename req),
      mimetype = (if truthy_str (n_mimetype req) then the (n_mimetype req)
                  else ''application/octet-stream''),
      size_u = or_int (n_size req) None,
      path = ''s3://'' @ S3_BUCKET env @ ''/'' @ the (n_key req),
      s3Url = Some (''https://'' @ S3_BUCKET env @ ''.s3.'' @ S3_REGION env @
                    ''.amazonaws.com/'' @ encodeURIComponent env (the (n_key req))),
      checkItem = or_str (n_checkItem req) None,
      lat = coerce_json (n_lat req),
      lng = coerce_json (n_lng req),
      accuracy = coerce_json (n_accuracy req),
      uploadedAt = now_upload_n env,
      exif = None,
      quality = None,
      detection = None,
      ocrVin = None\<rparr>"

text \<open>\<^verbatim>\<open>POST /api/inspections/:id/notify\<close>\<close>

definition notify_handler ::
  "(string \<Rightarrow> string) \<Rightarrow> store \<Rightarrow> notify_req \<Rightarrow> notify_env \<Rightarrow> (error + upload) \<times> store" where
  "notify_handler hashToken s req env =
     (if \<not> truthy_str (n_key req) \<or> \<not> truthy_str (n_filename req)
      then (Inl MissingKeyOrFilename, s)
      else
        (case token_checks hashToken s (n_id req) (n_query_t req) (n_x_token req) (now_check_n env) of
           Inl e \<Rightarrow> (Inl e, s)
         | Inr insp \<Rightarrow>
             if coordinates_throw req then (Inl ServerError, s)
             else
               let uploadEntry = notify_entry req env;
                   s1 = s\<lparr>uploads := uploads s @ [to_json uploadEntry]\<rparr>;
                   s2 = set_insp (n_id req) submit_if_pending s1
               in (Inr (to_json uploadEntry), s2)))"

section \<open>The fraud scoring engine\<close>

text \<open>An integer inside a template literal: its decimal text.\<close>

definition digit_char :: "nat \<Rightarrow> char" where
  "digit_char d = char_of (48 + d)"

fun show_nat :: "nat \<Rightarrow> string" where
  "show_nat n = (if n < 10 then [digit_char n] else show_nat (n div 10) @ [digit_char (n mod 10)])"

declare show_nat.simps [simp del]

definition show_int :: "int \<Rightarrow> string" where
  "show_int i = (if i < 0 then CHR ''-'' # show_nat (nat (- i)) else show_nat (nat i))"

text \<open>A string property inside a template literal; a missing one prints as \<^verbatim>\<open>undefined\<close>.\<close>

definition show_str :: "string option \<Rightarrow> string" where
  "show_str v = (case v of None \<Rightarrow> ''undefined'' | Some t \<Rightarrow> t)"

text \<open>\<^verbatim>\<open>data.uploads.filter(u => u.inspectionId === insp.id)\<close>\<close>

definition uploads_of :: "store \<Rightarrow> inspection \<Rightarrow> upload list" where
  "uploads_of s insp = filter (\<lambda>u. inspectionId u = id_i insp) (uploads s)"

text \<open>\<^verbatim>\<open>data.vinRecords?.find(v => v.vin === insp.vin)\<close>\<close>

definition vinRecord_of :: "store \<Rightarrow> inspection \<Rightarrow> vin_record option" where
  "vinRecord_of s insp =
     (case vinRecords s of
        None \<Rightarrow> None
      | Some vs \<Rightarrow> find (\<lambda>v. Some (vin_v v) = vin insp) vs)"

text \<open>Signal 1: \<^verbatim>\<open>u.exif?.gps\<close> and the placeholder comparison with latitude 40.\<close>

definition gps_of :: "upload \<Rightarrow> exif_gps option" where
  "gps_of u = (case exif u of Some (Some e) \<Rightarrow> gps e | _ \<Rightarrow> None)"

definition gpsCoords :: "upload list \<Rightarrow> exif_gps list" where
  "gpsCoords ups = map (\<lambda>u. the (gps_of u)) (filter (\<lambda>u. gps_of u \<noteq> None) ups)"

definition gps_mismatch :: "inspection \<Rightarrow> upload list \<Rightarrow> bool" where
  "gps_mismatch insp ups =
     (length (gpsCoords ups) > 0 \<and> truthy_str (sellerZip insp) \<and>
      list_ex (\<lambda>g. \<bar>gps_lat g - 40\<bar> > 5) (gpsCoords ups))"

text \<open>Signal 2.\<close>

definition lastReading_of :: "vin_record option \<Rightarrow> odometer_reading option" where
  "lastReading_of vr =
     (case vr of
        None \<Rightarrow> None
      | Some v \<Rightarrow> (case odometer v of None \<Rightarrow> None | Some od \<Rightarrow> lastReading od))"

definition declaredMileage :: "inspection \<Rightarrow> int" where
  "declaredMileage insp = (case odometerReading insp of None \<Rightarrow> 0 | Some n \<Rightarrow> n)"

definition historyMileage :: "vin_record option \<Rightarrow> int" where
  "historyMileage vr =
     (case lastReading_of vr of
        None \<Rightarrow> 0
      | Some rd \<Rightarrow> (case mileage rd of None \<Rightarrow> 0 | Some n \<Rightarrow> n))"

definition odometer_discrepancy :: "inspection \<Rightarrow> upload list \<Rightarrow> vin_record option \<Rightarrow> bool" where
  "odometer_discrepancy insp ups vr =
     (find (\<lambda>u. checkItem u = Some ''odometer'') ups \<noteq> None \<and>
      lastReading_of vr \<noteq> None \<and>
      declaredMileage insp < historyMileage vr - 5000)"

definition odometer_flag :: "inspection \<Rightarrow> vin_record option \<Rightarrow> string" where
  "odometer_flag insp vr =
     ''Odometer rollback suspected: Declared '' @ show_int (declaredMileage insp) @
     '' mi < History '' @ show_int (historyMileage vr) @ '' mi''"

text \<open>Signal 3: \<^verbatim>\<open>u.detection?.predictions?.length > 0\<close>.\<close>

definition has_predictions :: "upload \<Rightarrow> bool" where
  "has_predictions u =
     (case detection u of
        Some (AutoDetection d) \<Rightarrow>
          (case predictions d of None \<Rightarrow> False | Some ps \<Rightarrow> length ps > 0)
      | _ \<Rightarrow> False)"

definition damageDetections :: "upload list \<Rightarrow> upload list" where
  "damageDetections ups = filter has_predictions ups"

definition undisclosed_damage :: "inspection \<Rightarrow> upload list \<Rightarrow> bool" where
  "undisclosed_damage insp ups =
     (length (damageDetections ups) > 0 \<and> \<not> truthy_bool (sellerDisclosedDamage insp))"

text \<open>Signal 4.\<close>

definition vinPlateUpload :: "upload list \<Rightarrow> upload option" where
  "vinPlateUpload ups = find (\<lambda>u. checkItem u = Some ''vin_plate'') ups"

definition vin_mismatch :: "inspection \<Rightarrow> upload list \<Rightarrow> bool" where
  "vin_mismatch insp ups =
     (case vinPlateUpload ups of
        None \<Rightarrow> False
      | Some u \<Rightarrow> truthy_str (ocrVin u) \<and> ocrVin u \<noteq> vin insp)"

text \<open>Signal 5: \<^verbatim>\<open>vinRecord?.ownership?.count >= 2\<close>.\<close>

definition ownership_count :: "vin_record option \<Rightarrow> int option" where
  "ownership_count vr =
     (case vr of
        None \<Rightarrow> None
      | Some v \<Rightarrow> (case ownership v of None \<Rightarrow> None | Some ow \<Rightarrow> Some (count_o ow)))"

definition title_flip :: "vin_record option \<Rightarrow> bool" where
  "title_flip vr = (case ownership_count vr of None \<Rightarrow> False | Some c \<Rightarrow> c \<ge> 2)"

text \<open>Signal 6: \<^verbatim>\<open>u.quality?.warnings?.length > 0\<close>.\<close>

definition has_warnings :: "upload \<Rightarrow> bool" where
  "has_warnings u = (case quality u of Some (Some q) \<Rightarrow> length (warnings q) > 0 | _ \<Rightarrow> False)"

definition lowQualityCount :: "upload list \<Rightarrow> nat" where
  "lowQualityCount ups = length (filter has_warnings ups)"

text \<open>
  \<^verbatim>\<open>score += w; flags.push(text)\<close> under its condition: the running score and flag
  list are a pair.
\<close>

definition signal :: "bool \<Rightarrow> int \<Rightarrow> string \<Rightarrow> int \<times> string list \<Rightarrow> int \<times> string list" where
  "signal c w text acc = (if c then (fst acc + w, snd acc @ [text]) else acc)"

definition level_of :: "int \<Rightarrow> string" where
  "level_of sc = (if sc < 30 then ''low'' else if sc < 70 then ''medium'' else ''high'')"

definition autoFlag_of :: "int \<Rightarrow> bool" where
  "autoFlag_of sc = (sc \<ge> 70)"

text \<open>
  Signals 4 and 5 print a property of the object their condition has just found, so
  each is written with that object in hand.
\<close>

definition vin_mismatch_signal ::
  "inspection \<Rightarrow> upload list \<Rightarrow> int \<times> string list \<Rightarrow> int \<times> string list" where
  "vin_mismatch_signal insp ups acc =
     (case vinPlateUpload ups of
        None \<Rightarrow> acc
      | Some u \<Rightarrow>
          signal (truthy_str (ocrVin u) \<and> ocrVin u \<noteq> vin insp) 35
            (''VIN mismatch: Plate shows '' @ show_str (ocrVin u) @
             '', seller entered '' @ show_str (vin insp)) acc)"

definition title_flip_signal ::
  "vin_record option \<Rightarrow> int \<times> string list \<Rightarrow> int \<times> string list" where
  "title_flip_signal vr acc =
     (case ownership_count vr of
        None \<Rightarrow> acc
      | Some recentTransfers \<Rightarrow>
          signal (recentTransfers \<ge> 2) 15
            (''Potential flip: '' @ show_int recentTransfers @
             '' ownership transfers in short period'') acc)"

text \<open>The six signals in the order of the source, from score 0 and no flags.\<close>

definition run_signals :: "inspection \<Rightarrow> upload list \<Rightarrow> vin_record option \<Rightarrow> int \<times> string list" where
  "run_signals insp ups vr =
     (let a1 = signal (gps_mismatch insp ups) 25
                 ''GPS location mismatch: Photos taken outside seller's claimed area'' (0, []);
          a2 = signal (odometer_discrepancy insp ups vr) 30 (odometer_flag insp vr) a1;
          a3 = signal (undisclosed_damage insp ups) 20
                 (''AI detected '' @ show_nat (length (damageDetections ups)) @
                  '' damaged areas not disclosed by seller'') a2;
          a4 = vin_mismatch_signal insp ups a3;
          a5 = title_flip_signal vr a4;
          a6 = signal (lowQualityCount ups > 5) 10
                 (show_nat (lowQualityCount ups) @ '' low-quality photos may be hiding damage'') a5
      in a6)"

text \<open>The object literal \<^verbatim>\<open>result\<close>, after \<^verbatim>\<open>score = Math.min(score, 100)\<close>.\<close>

definition assessment :: "inspection \<Rightarrow> int \<times> string list \<Rightarrow> int \<Rightarrow> fraud_result" where
  "assessment insp acc now =
     (let sc = min (fst acc) 100
      in \<lparr>inspectionId_r = id_i insp,
          vin_r = vin insp,
          score = sc,
          level = level_of sc,
          autoFlag = autoFlag_of sc,
          flags = snd acc,
          timestamp_r = now\<rparr>)"

text \<open>
  \<^verbatim>\<open>GET /api/inspections/:id/fraud-score\<close>: the response and the document written,
  where the inspection carries the result as \<^verbatim>\<open>fraudScore\<close>. \<open>now\<close> is the reading
  of \<^verbatim>\<open>Date.now()\<close> in the object literal.
\<close>

definition fraud_score :: "store \<Rightarrow> string \<Rightarrow> int \<Rightarrow> (error + fraud_result) \<times> store" where
  "fraud_score s rid now =
     (case find_insp s rid of
        None \<Rightarrow> (Inl NotFound, s)
      | Some insp \<Rightarrow>
          let ups = uploads_of s insp;
              vinRecord = vinRecord_of s insp;
              result = assessment insp (run_signals insp ups vinRecord) now
          in (Inr result, set_insp rid (\<lambda>i. i\<lparr>fraudScore := Some result\<rparr>) s))"

text \<open>The sum of the weights of the triggered signals, for comparison with the score.\<close>

definition weight_sum :: "inspection \<Rightarrow> upload list \<Rightarrow> vin_record option \<Rightarrow> int" where
  "weight_sum insp ups vr =
     (if gps_mismatch insp ups then 25 else 0) +
     (if odometer_discrepancy insp ups vr then 30 else 0) +
     (if undisclosed_damage insp ups then 20 else 0) +
     (if vin_mismatch insp ups then 35 else 0) +
     (if title_flip vr then 15 else 0) +
     (if lowQualityCount ups > 5 then 10 else 0)"

section \<open>The other handlers that write the data file\<close>

record create_body =
  c_orderId :: "string option"
  c_buyerEmail :: "string option"
  c_sellerPhone :: "string option"
  c_sellerEmail :: "string option"
  c_price :: "string option"
  c_notes :: "string option"

text \<open>
  \<^verbatim>\<open>POST /api/inspections\<close>. \<open>nid\<close> and \<open>token\<close> are the two \<^verbatim>\<open>uuidv4()\<close>
  values, \<open>now\<close> and \<open>now'\<close> the two clock readings.
\<close>

definition create_inspection ::
  "(string \<Rightarrow> string) \<Rightarrow> store \<Rightarrow> create_body \<Rightarrow> string \<Rightarrow> string \<Rightarrow> int \<Rightarrow> int \<Rightarrow> store" where
  "create_inspection hashToken s b nid token now now' =
     s\<lparr>inspections := inspections s @
        [\<lparr>id_i = nid,
          orderId = or_str (c_orderId b) None,
          buyerEmail = or_str (c_buyerEmail b) None,
          sellerPhone = or_str (c_sellerPhone b) None,
          sellerEmail = or_str (c_sellerEmail b) None,
          price = or_str (c_price b) None,
          notes_i = or_str (c_notes b) None,
          tokenHash = hashToken token,
          tokenExpiry = now + 48 * 3600 * 1000,
          status = ''pending'',
          createdAt = now',
          updatedAt = None,
          vin = None,
          sellerZip = None,
          odometerReading = None,
          sellerDisclosedDamage = None,
          fraudScore = None,
          aiReport = None,
          tire = None,
          report = None,
          chatHistory = None\<rparr>]\<rparr>"

text \<open>\<^verbatim>\<open>POST /api/inspections/:id/mark-complete\<close>\<close>

definition mark_complete :: "store \<Rightarrow> string \<Rightarrow> (error + unit) \<times> store" where
  "mark_complete s rid =
     (case find_insp s rid of
        None \<Rightarrow> (Inl NotFound, s)
      | Some insp \<Rightarrow> (Inr (), set_insp rid (\<lambda>i. i\<lparr>status := ''complete''\<rparr>) s))"

text \<open>
  The body of the two generic updates: for each allowed key, \<open>None\<close> when the body has
  no such own property, else the value to assign. Of the allowed keys, those that are
  properties of \<open>inspection\<close> are kept.
\<close>

record update_body =
  p_status :: "string option"
  p_buyerEmail :: "string option option"
  p_price :: "string option option"
  p_orderId :: "string option option"
  p_notes :: "string option option"

definition assign :: "'a option \<Rightarrow> 'a \<Rightarrow> 'a" where
  "assign v old = (case v of None \<Rightarrow> old | Some x \<Rightarrow> x)"

text \<open>\<^verbatim>\<open>POST /api/inspections/:id\<close>: \<^verbatim>\<open>status\<close> and \<^verbatim>\<open>notes\<close> are not among its keys.\<close>

definition post_update :: "store \<Rightarrow> string \<Rightarrow> update_body \<Rightarrow> int \<Rightarrow> (error + unit) \<times> store" where
  "post_update s rid b now =
     (case find_insp s rid of
        None \<Rightarrow> (Inl NotFound, s)
      | Some insp \<Rightarrow>
          (Inr (), set_insp rid
             (\<lambda>i. i\<lparr>buyerEmail := assign (p_buyerEmail b) (buyerEmail i),
                    price := assign (p_price b) (price i),
                    orderId := assign (p_orderId b) (orderId i),
                    updatedAt := Some now\<rparr>) s))"

text \<open>\<^verbatim>\<open>PUT /api/inspections/:id\<close>: the value of \<^verbatim>\<open>status\<close> is assigned as it comes.\<close>

definition put_update :: "store \<Rightarrow> string \<Rightarrow> update_body \<Rightarrow> int \<Rightarrow> (error + unit) \<times> store" where
  "put_update s rid b now =
     (case find_insp s rid of
        None \<Rightarrow> (Inl NotFound, s)
      | Some insp \<Rightarrow>
          (Inr (), set_insp rid
             (\<lambda>i. i\<lparr>status := assign (p_status b) (status i),
                    buyerEmail := assign (p_buyerEmail b) (buyerEmail i),
                    price := assign (p_price b) (price i),
                    orderId := assign (p_orderId b) (orderId i),
                    notes_i := assign (p_notes b) (notes_i i),
                    updatedAt := Some now\<rparr>) s))"

text \<open>
  \<^verbatim>\<open>POST /api/inspections/:id/generate-ai-report\<close>. \<open>configured\<close>: the OpenAI
  client exists. \<open>md\<close>: the text the model answered, \<open>None\<close> when the call threw.
\<close>

definition generate_ai_report ::
  "store \<Rightarrow> string \<Rightarrow> bool \<Rightarrow> string option \<Rightarrow> int \<Rightarrow> (error + string) \<times> store" where
  "generate_ai_report s rid configured md now =
     (case find_insp s rid of
        None \<Rightarrow> (Inl NotFound, s)
      | Some insp \<Rightarrow>
          if \<not> configured then (Inl NotConfigured, s)
          else
            (case md of
               None \<Rightarrow> (Inl ReportFailed, s)
             | Some reportMarkdown \<Rightarrow>
                 (Inr reportMarkdown, set_insp rid
                    (\<lambda>i. i\<lparr>aiReport := Some \<lparr>markdown = reportMarkdown, generatedAt = now,
                                              reviewed = False, reviewedAt = None,
                                              reviewedBy = None\<rparr>\<rparr>) s)))"

text \<open>\<^verbatim>\<open>POST /api/inspections/:id/approve-report\<close>\<close>

definition approve_report :: "store \<Rightarrow> string \<Rightarrow> string option \<Rightarrow> int \<Rightarrow> (error + unit) \<times> store" where
  "approve_report s rid reviewerName now =
     (case find_insp s rid of
        None \<Rightarrow> (Inl NotFound, s)
      | Some insp \<Rightarrow>
          (case aiReport insp of
             None \<Rightarrow> (Inl NoAiReport, s)
           | Some rep \<Rightarrow>
               (Inr (), set_insp rid
                  (\<lambda>i. i\<lparr>aiReport := Some (rep\<lparr>reviewed := True, reviewedAt := Some now,
                                               reviewedBy := Some (if truthy_str reviewerName
                                                                   then the reviewerName
                                                                   else ''admin'')\<rparr>),
                         status := ''completed''\<rparr>) s)))"

text \<open>
  \<^verbatim>\<open>String.prototype.toUpperCase\<close> on ASCII text, where it changes the letters a to z
  and nothing else.
\<close>

definition isAscii :: "char \<Rightarrow> bool" where
  "isAscii c = ((of_char c :: nat) < 128)"

definition isLower :: "char \<Rightarrow> bool" where
  "isLower c = (97 \<le> (of_char c :: nat) \<and> (of_char c :: nat) \<le> 122)"

definition toUpper :: "char \<Rightarrow> char" where
  "toUpper c = (if isLower c then char_of ((of_char c :: nat) - 32) else c)"

definition toUpperCase :: "string \<Rightarrow> string" where
  "toUpperCase t = map toUpper t"

text \<open>
  \<^verbatim>\<open>POST /api/vin-records\<close>. \<open>ts\<close> is the \<^verbatim>\<open>timestamp\<close> of the body; the decode,
  recall and safety payloads are stored as they come and read by no handler here.
\<close>

definition save_vin_record ::
  "store \<Rightarrow> string option \<Rightarrow> int option \<Rightarrow> string \<Rightarrow> int \<Rightarrow> (error + string) \<times> store" where
  "save_vin_record s v ts nid now =
     (if \<not> truthy_str v then (Inl VinRequired, s)
      else
        let record = \<lparr>id_v = nid, vin_v = toUpperCase (the v), odometer = None, ownership = None,
                      timestamp_v = (if truthy_int ts then the ts else now), createdAt_v = now\<rparr>
        in (Inr nid,
            s\<lparr>vinRecords := Some ((case vinRecords s of None \<Rightarrow> [] | Some vs \<Rightarrow> vs) @ [record])\<rparr>))"

text \<open>\<^verbatim>\<open>POST /api/inspections/:id/tire\<close>: the body is attached as it comes.\<close>

definition tire_handler :: "store \<Rightarrow> string \<Rightarrow> string \<Rightarrow> int \<Rightarrow> (error + unit) \<times> store" where
  "tire_handler s rid payload now =
     (case find_insp s rid of
        None \<Rightarrow> (Inl NotFound, s)
      | Some insp \<Rightarrow>
          (Inr (), set_insp rid (\<lambda>i. i\<lparr>tire := Some payload, updatedAt := Some now\<rparr>) s))"

text \<open>The object \<^verbatim>\<open>{ path: `/uploads/report-${id}.pdf`, createdAt: Date.now() }\<close>.\<close>

definition new_report :: "string \<Rightarrow> int \<Rightarrow> report_info" where
  "new_report rid now =
     \<lparr>path_r = ''/uploads/report-'' @ rid @ ''.pdf'', createdAt_r = now, emailed = None,
      emailedAt = None, emailedTo = None, emailError = None\<rparr>"

text \<open>
  \<^verbatim>\<open>POST /api/inspections/:id/generate-pdf\<close>. \<open>puppeteer\<close>: the module loads.
  \<open>pdf_ok\<close>: the page was rendered and the PDF written to disk.
\<close>

definition generate_pdf ::
  "store \<Rightarrow> string \<Rightarrow> bool \<Rightarrow> bool \<Rightarrow> int \<Rightarrow> (error + string) \<times> store" where
  "generate_pdf s rid puppeteer pdf_ok now =
     (case find_insp s rid of
        None \<Rightarrow> (Inl NotFound, s)
      | Some insp \<Rightarrow>
          if \<not> puppeteer then (Inl PuppeteerMissing, s)
          else if \<not> pdf_ok then (Inl PdfFailed, s)
          else (Inr (path_r (new_report rid now)),
                set_insp rid (\<lambda>i. i\<lparr>report := Some (new_report rid now)\<rparr>) s))"

text \<open>
  What the report handlers find outside: \<open>queued\<close> (the Redis queue exists and took the
  job), \<open>sendgrid\<close> (the API key is set), and \<open>send_error\<close>, the message of the error
  when sending threw.
\<close>

record mail_env =
  queued :: bool
  puppeteer_m :: bool
  pdf_ok_m :: bool
  sendgrid :: bool
  send_error :: "string option"
  now_m :: int
  now_sent :: int

datatype email_result = Queued | Emailed bool

text \<open>\<^verbatim>\<open>POST /api/inspections/:id/email-report\<close>; \<open>to\<close> is \<^verbatim>\<open>req.body.to\<close>.\<close>

definition email_report ::
  "store \<Rightarrow> string \<Rightarrow> string option \<Rightarrow> mail_env \<Rightarrow> (error + email_result) \<times> store" where
  "email_report s rid to env =
     (case find_insp s rid of
        None \<Rightarrow> (Inl NotFound, s)
      | Some insp \<Rightarrow>
          if queued env then (Inr Queued, s)
          else if \<not> puppeteer_m env then (Inl PuppeteerMissing, s)
          else if \<not> pdf_ok_m env then (Inl PdfFailed, s)
          else
            let s1 = set_insp rid (\<lambda>i. i\<lparr>report := Some (new_report rid (now_m env))\<rparr>) s;
                recipient = or_str to (or_str (buyerEmail insp) None)
            in if sendgrid env \<and> truthy_str recipient then
                 (case send_error env of
                    None \<Rightarrow> (Inr (Emailed True), s1)
                  | Some msg \<Rightarrow> (Inl EmailFailed, s1))
               else (Inr (Emailed False), s1))"

text \<open>
  The job of worker.js, for the id and recipient the queue hands it: the document after
  it. \<^verbatim>\<open>insp.report = insp.report || {}\<close> keeps the properties of an earlier report.
\<close>

definition worker_job :: "store \<Rightarrow> string \<Rightarrow> string option \<Rightarrow> mail_env \<Rightarrow> store" where
  "worker_job s rid to env =
     (case find_insp s rid of
        None \<Rightarrow> s
      | Some insp \<Rightarrow>
          if \<not> puppeteer_m env \<or> \<not> pdf_ok_m env then s
          else
            let keep = (\<lambda>i. case report i of None \<Rightarrow> new_report rid (now_m env) | Some r \<Rightarrow> r);
                s1 = set_insp rid
                       (\<lambda>i. i\<lparr>report := Some ((keep i)\<lparr>path_r := ''/uploads/report-'' @ rid @ ''.pdf'',
                                                          createdAt_r := now_m env\<rparr>)\<rparr>) s;
                sendTo = or_str to (or_str (buyerEmail insp) None)
            in if sendgrid env \<and> truthy_str sendTo then
                 (case send_error env of
                    None \<Rightarrow>
                      set_insp rid
                        (\<lambda>i. i\<lparr>report := map_option
                                 (\<lambda>r. r\<lparr>emailed := Some True, emailedAt := Some (now_sent env),
                                         emailedTo := sendTo\<rparr>) (report i)\<rparr>) s1
                  | Some msg \<Rightarrow>
                      set_insp rid
                        (\<lambda>i. i\<lparr>report := map_option
                                 (\<lambda>r. r\<lparr>emailed := Some False, emailError := Some msg\<rparr>)
                                 (report i)\<rparr>) s1)
               else s1)"

text \<open>
  \<^verbatim>\<open>POST /api/inspections/:id/chat\<close>. \<open>msg\<close> is the \<^verbatim>\<open>message\<close> of the body when
  it is a string. While it waits, the handler sends a request of its own to the
  fraud-score route: \<open>nested\<close> is the clock reading of that request when it was served,
  \<open>None\<close> when the call failed. \<open>openai_key\<close>: the key is set. \<open>completion\<close>: the
  reply of the model, \<open>None\<close> when the call threw. \<open>iso\<close>: the time stamp text. The
  handler wrote nothing before the nested request and writes, when the model replied,
  the document it read at the start with the chat entry added; so the \<open>fraudScore\<close> the
  nested request stored is overwritten by that write, and stays when there is none.
  \<^verbatim>\<open>data.vinRecords.find\<close> throws when the document has no VIN records.
\<close>

record chat_env =
  nested :: "int option"
  openai_key :: bool
  completion :: "string option"
  iso :: string

definition unavailable_reply :: string where
  "unavailable_reply = ''I'm currently unavailable (OpenAI API key not configured). Please contact our support team at support@trustcar.io for assistance with your inspection report.''"

definition chat_handler ::
  "store \<Rightarrow> string \<Rightarrow> string option \<Rightarrow> chat_env \<Rightarrow> (error + string) \<times> store" where
  "chat_handler s rid msg env =
     (if \<not> truthy_str msg then (Inl MessageRequired, s)
      else
        (case find_insp s rid of
           None \<Rightarrow> (Inl NotFound, s)
         | Some inspection \<Rightarrow>
             if vinRecords s = None then (Inl Unanswered, s)
             else
               let after_nested =
                     (case nested env of None \<Rightarrow> s | Some t \<Rightarrow> snd (fraud_score s rid t))
               in if \<not> openai_key env then (Inr unavailable_reply, after_nested)
                  else
                    (case completion env of
                       None \<Rightarrow> (Inl ChatFailed, after_nested)
                     | Some reply \<Rightarrow>
                         (Inr reply,
                          set_insp rid
                            (\<lambda>i. i\<lparr>chatHistory := Some
                                   ((case chatHistory i of None \<Rightarrow> [] | Some hist \<Rightarrow> hist) @
                                    [\<lparr>timestamp_c = iso env, message_c = the msg,
                                      reply_c = reply\<rparr>])\<rparr>) s))))"

text \<open>
  \<^verbatim>\<open>POST /api/roboflow/detect\<close>. \<open>d_imageUrl\<close> is the text
  \<^verbatim>\<open>(imageUrl || '').toString().trim()\<close>; \<open>answer\<close> the awaited call to Roboflow.
\<close>

record detect_req =
  d_imageUrl :: string
  d_uploadId :: "string option"

record detect_env =
  configured_d :: bool
  origin_d :: string
  ROBOFLOW_MODEL :: string
  ROBOFLOW_VERSION :: string
  answer :: fetch_outcome
  now_d :: int

definition target_of :: "detect_env \<Rightarrow> upload \<Rightarrow> string" where
  "target_of env u =
     (if take 8 (path u) = ''/uploads'' then origin_d env @ path u
      else the (or_str (s3Url u) (Some (path u))))"

definition roboflow_detect ::
  "store \<Rightarrow> detect_req \<Rightarrow> detect_env \<Rightarrow> (error + prediction list option) \<times> store" where
  "roboflow_detect s req env =
     (if \<not> configured_d env then (Inl NotConfigured, s)
      else
        let found = find (\<lambda>u. id_u u = the (d_uploadId req)) (uploads s);
            looked_up = (d_imageUrl req = [] \<and> truthy_str (d_uploadId req))
        in if looked_up \<and> found = None then (Inl UploadNotFound, s)
           else if (if looked_up then target_of env (the found) else d_imageUrl req) = []
           then (Inl NoImageUrl, s)
           else
             (case answer env of
                FetchRejected \<Rightarrow> (Inl DetectFailed, s)
              | FetchResolved result \<Rightarrow>
                  (Inr result,
                   if truthy_str (d_uploadId req) then
                     s\<lparr>uploads := update_first (\<lambda>u. id_u u = the (d_uploadId req))
                         (\<lambda>u. u\<lparr>detection := Some (ManualDetection
                                \<lparr>provider = ''roboflow'', model_d = ROBOFLOW_MODEL env,
                                 version_d = ROBOFLOW_VERSION env, result_d = result,
                                 detectedAt = now_d env\<rparr>)\<rparr>) (uploads s)\<rparr>
                   else s)))"

text \<open>
  One request to one of the handlers that write data.json (every call of
  \<^verbatim>\<open>writeData\<close> in server.js and worker.js is in one of them), and the document
  after it.
\<close>

datatype request =
    Create create_body string string int int
  | Upload upload_req upload_env
  | Notify notify_req notify_env
  | MarkComplete string
  | Tire string string int
  | PostUpdate string update_body int
  | PutUpdate string update_body int
  | GeneratePdf string bool bool int
  | EmailReport string "string option" mail_env
  | WorkerJob string "string option" mail_env
  | FraudScore string int
  | GenerateAiReport string bool "string option" int
  | ApproveReport string "string option" int
  | SaveVinRecord "string option" "int option" string int
  | Detect detect_req detect_env
  | Chat string "string option" chat_env

fun step :: "(string \<Rightarrow> string) \<Rightarrow> store \<Rightarrow> request \<Rightarrow> store" where
  "step h s (Create b nid token now now') = create_inspection h s b nid token now now'"
| "step h s (Upload req env) = snd (upload_handler h s req env)"
| "step h s (Notify req env) = snd (notify_handler h s req env)"
| "step h s (MarkComplete rid) = snd (mark_complete s rid)"
| "step h s (Tire rid payload now) = snd (tire_handler s rid payload now)"
| "step h s (PostUpdate rid b now) = snd (post_update s rid b now)"
| "step h s (PutUpdate rid b now) = snd (put_update s rid b now)"
| "step h s (GeneratePdf rid puppeteer pdf_ok now) = snd (generate_pdf s rid puppeteer pdf_ok now)"
| "step h s (EmailReport rid to env) = snd (email_report s rid to env)"
| "step h s (WorkerJob rid to env) = worker_job s rid to env"
| "step h s (FraudScore rid now) = snd (fraud_score s rid now)"
| "step h s (GenerateAiReport rid configured md now) = snd (generate_ai_report s rid configured md now)"
| "step h s (ApproveReport rid who now) = snd (approve_report s rid who now)"
| "step h s (SaveVinRecord v ts nid now) = snd (save_vin_record s v ts nid now)"
| "step h s (Detect req env) = snd (roboflow_detect s req env)"
| "step h s (Chat rid msg env) = snd (chat_handler s rid msg env)"

text \<open>The document after a sequence of requests.\<close>

definition run :: "(string \<Rightarrow> string) \<Rightarrow> store \<Rightarrow> request list \<Rightarrow> store" where
  "run h s rqs = foldl (step h) s rqs"

text \<open>The VINs of the stored VIN records, in order.\<close>

definition stored_vins :: "store \<Rightarrow> string list" where
  "stored_vins s = map vin_v (case vinRecords s of None \<Rightarrow> [] | Some vs \<Rightarrow> vs)"

definition status_values :: "string list" where
  "status_values = [''pending'', ''submitted'', ''flagged'', ''completed'']"

definition statuses_ok :: "store \<Rightarrow> bool" where
  "statuses_ok s = list_all (\<lambda>i. status i \<in> set status_values) (inspections s)"

text \<open>
  A handler that leaves the inspections in place: the statuses stay among the four
  values when they were, no inspection is added, and none becomes completed.
\<close>

definition keeps_inspections :: "store \<Rightarrow> store \<Rightarrow> bool" where
  "keeps_inspections s s' =
     ((statuses_ok s \<longrightarrow> statuses_ok s') \<and>
      length (inspections s') = length (inspections s) \<and>
      (\<forall>k < length (inspections s).
         status (inspections s' ! k) = ''completed'' \<longrightarrow> status (inspections s ! k) = ''completed''))"

text \<open>
  Every VIN record holds a VIN without a letter a to z, as \<^verbatim>\<open>vin.toUpperCase()\<close>
  leaves it.
\<close>

definition vins_upper :: "store \<Rightarrow> bool" where
  "vins_upper s =
     (case vinRecords s of
        None \<Rightarrow> True
      | Some vs \<Rightarrow> list_all (\<lambda>r. \<not> list_ex isLower (vin_v r)) vs)"

text \<open>
  The odometer rule in words of its own, for comparison with signal 2: the inspection
  has an upload whose checklist item is the odometer, a VIN record is found for it with
  a latest reading, and the declared mileage is more than 5000 below that reading.
\<close>

definition odometer_rule :: "store \<Rightarrow> inspection \<Rightarrow> bool" where
  "odometer_rule s insp =
     (list_ex (\<lambda>u. inspectionId u = id_i insp \<and> checkItem u = Some ''odometer'') (uploads s) \<and>
      (case vinRecord_of s insp of
         None \<Rightarrow> False
       | Some v \<Rightarrow>
           (case odometer v of
              None \<Rightarrow> False
            | Some od \<Rightarrow>
                (case lastReading od of
                   None \<Rightarrow> False
                 | Some rd \<Rightarrow>
                     declaredMileage insp + 5000 < (case mileage rd of None \<Rightarrow> 0 | Some m \<Rightarrow> m)))))"

text \<open>The number of triggered signals, for comparison with the number of flags.\<close>

definition trigger_count :: "inspection \<Rightarrow> upload list \<Rightarrow> vin_record option \<Rightarrow> nat" where
  "trigger_count insp ups vr =
     (if gps_mismatch insp ups then 1 else 0) +
     (if odometer_discrepancy insp ups vr then 1 else 0) +
     (if undisclosed_damage insp ups then 1 else 0) +
     (if vin_mismatch insp ups then 1 else 0) +
     (if title_flip vr then 1 else 0) +
     (if lowQualityCount ups > 5 then 1 else 0)"

section \<open>Example documents and requests\<close>

text \<open>A stand-in for the digest, injective like the real one is taken to be.\<close>

definition ex_hash :: "string \<Rightarrow> string" where
  "ex_hash t = ''sha256:'' @ t"

definition ex_insp :: inspection where
  "ex_insp =
     \<lparr>id_i = ''i1'', orderId = Some ''o1'', buyerEmail = None, sellerPhone = None,
      sellerEmail = None, price = None, notes_i = None, tokenHash = ex_hash ''good'',
      tokenExpiry = 100, status = ''pending'', createdAt = 0, updatedAt = None,
      vin = None, sellerZip = None, odometerReading = None, sellerDisclosedDamage = None,
      fraudScore = None, aiReport = None, tire = None, report = None, chatHistory = None\<rparr>"

definition ex_store :: store where
  "ex_store = \<lparr>inspections = [ex_insp], uploads = [], vinRecords = None\<rparr>"

definition ex_file :: file_info where
  "ex_file = \<lparr>f_filename = ''u1.txt'', f_originalname = ''notes.txt'',
              f_mimetype = ''text/plain'', f_size = 12\<rparr>"

definition ex_req :: upload_req where
  "ex_req =
     \<lparr>r_id = ''i1'', r_query_t = Some ''good'', r_x_token = None, r_file = Some ex_file,
      r_body = \<lparr>b_checkItem = Some ''odometer'', b_lat = Some (units ''abc''), b_lng = None,
                b_accuracy = Some []\<rparr>\<rparr>"

definition ex_prediction :: prediction where
  "ex_prediction = \<lparr>class_p = ''dent'', confidence = 9 / 10\<rparr>"

definition ex_env :: upload_env where
  "ex_env =
     \<lparr>new_id = ''u1'', now_check = 50, now_upload = 51, now_detect = 60, readable = True,
      exif_out = ExifThrows, sharp_out = SharpThrows, roboflow_configured = True,
      fetch_out = FetchResolved (Some [ex_prediction])\<rparr>"

text \<open>
  What the two libraries do with a payload of zero bytes: exif-parser finds no section to
  read and returns an empty table of tags without throwing; sharp rejects the input.
\<close>

definition no_tags :: exif_tags where
  "no_tags =
     \<lparr>GPSLatitude = None, GPSLongitude = None, DateTimeOriginal = None, DateTime = None,
      Make = None, Model = None, Orientation = None\<rparr>"

definition zero_byte_env :: upload_env where
  "zero_byte_env = ex_env\<lparr>exif_out := ExifParsed (Some no_tags), sharp_out := SharpThrows\<rparr>"

definition ex_notify_req :: notify_req where
  "ex_notify_req =
     \<lparr>n_id = ''i1'', n_query_t = Some ''good'', n_x_token = None, n_key = Some ''k1'',
      n_filename = Some ''a.jpg'', n_mimetype = None, n_size = None, n_checkItem = None,
      n_lat = Val [], n_lng = Null, n_accuracy = Undefined\<rparr>"

definition ex_notify_env :: notify_env where
  "ex_notify_env =
     \<lparr>new_id_n = ''u2'', now_check_n = 50, now_upload_n = 51, S3_BUCKET = ''bucket'',
      S3_REGION = ''us-east-1'', encodeURIComponent = (\<lambda>k. k)\<rparr>"

text \<open>
  Scenario C: declared mileage 45000, latest reading of the history 52000. \<open>scenario_c\<close>
  has no upload; \<open>scenario_c_photo\<close> adds one odometer photo; \<open>scenario_boundary\<close>
  declares 47000, exactly 5000 below the reading, with the photo.
\<close>

definition ex_vin :: string where
  "ex_vin = ''1HGCM82633A004352''"

definition insp_c :: inspection where
  "insp_c = ex_insp\<lparr>id_i := ''i3'', vin := Some ex_vin, odometerReading := Some 45000\<rparr>"

definition history_c :: vin_record where
  "history_c =
     \<lparr>id_v = ''v1'', vin_v = ex_vin,
      odometer = Some \<lparr>lastReading = Some \<lparr>mileage = Some 52000\<rparr>\<rparr>,
      ownership = None, timestamp_v = 0, createdAt_v = 0\<rparr>"

definition odometer_photo :: upload where
  "odometer_photo =
     \<lparr>id_u = ''u3'', inspectionId = ''i3'', filename = ''odo.jpg'', originalname = ''odo.jpg'',
      mimetype = ''image/jpeg'', size_u = Some 1000, path = ''/uploads/odo.jpg'', s3Url = None,
      checkItem = Some ''odometer'', lat = None, lng = None, accuracy = None, uploadedAt = 1,
      exif = None, quality = None, detection = None, ocrVin = None\<rparr>"

definition scenario_c :: store where
  "scenario_c = \<lparr>inspections = [insp_c], uploads = [], vinRecords = Some [history_c]\<rparr>"

definition scenario_c_photo :: store where
  "scenario_c_photo = scenario_c\<lparr>uploads := [odometer_photo]\<rparr>"

definition scenario_boundary :: store where
  "scenario_boundary =
     scenario_c_photo\<lparr>inspections := [insp_c\<lparr>odometerReading := Some 47000\<rparr>]\<rparr>"

text \<open>
  A document that scores 70: a photo taken at latitude 47.6 with a seller ZIP declared,
  the odometer discrepancy, and two ownership transfers.
\<close>

definition scenario_70 :: store where
  "scenario_70 =
     \<lparr>inspections = [insp_c\<lparr>sellerZip := Some ''10001''\<rparr>],
      uploads = [odometer_photo\<lparr>exif := Some (Some \<lparr>gps = Some \<lparr>gps_lat = 476 / 10, gps_lng = -122\<rparr>,
                   timestamp_e = None, make_e = None, model_e = None, orientation = None\<rparr>)\<rparr>],
      vinRecords = Some [history_c\<lparr>ownership := Some \<lparr>count_o = 2\<rparr>\<rparr>]\<rparr>"

text \<open>The same history, for an inspection that declares the VIN in lower case.\<close>

definition scenario_lower :: store where
  "scenario_lower =
     \<lparr>inspections = [insp_c\<lparr>vin := Some ''1hgcm82633a004352''\<rparr>],
      uploads = [odometer_photo],
      vinRecords = Some [history_c\<lparr>ownership := Some \<lparr>count_o = 2\<rparr>\<rparr>]\<rparr>"

text \<open>
  Two inspections, the first submitted and with a generated report waiting for review,
  the second pending.
\<close>

definition ex_reported :: store where
  "ex_reported =
     \<lparr>inspections =
        [ex_insp\<lparr>status := ''submitted'',
                 aiReport := Some \<lparr>markdown = ''report'', generatedAt = 7, reviewed = False,
                                   reviewedAt = None, reviewedBy = None\<rparr>\<rparr>,
         insp_c],
      uploads = [], vinRecords = None\<rparr>"

text \<open>A body for the admin update that carries a status of its own choosing.\<close>

definition ex_put_body :: update_body where
  "ex_put_body =
     \<lparr>p_status = Some ''archived'', p_buyerEmail = None, p_price = None, p_orderId = None,
      p_notes = None\<rparr>"

section \<open>Token validation fails closed\<close>

lemma token_checks_cases:
  assumes "find_insp s rid = Some insp"
  shows "token_checks h s rid qt xt now =
     (if \<not> truthy_str (or_str qt xt) then Inl MissingToken
      else if h (the (or_str qt xt)) \<noteq> tokenHash insp then Inl InvalidToken
      else if now > tokenExpiry insp then Inl TokenExpired
      else Inr insp)"
  using assms by (simp add: token_checks_def Let_def)

lemma find_ex_insp: "find_insp ex_store ''i1'' = Some ex_insp"
  by (simp add: find_insp_def ex_store_def ex_insp_def)

text \<open>
  C1, as stated, fails: the hash is compared before the expiry, so an expired inspection
  presented with a token of the wrong hash is answered \<open>InvalidToken\<close> (403 "Invalid
  token"), not \<open>TokenExpired\<close>.
\<close>

theorem validate_expired_wrong_hash_counterexample:
  "find_insp ex_store ''i1'' = Some ex_insp \<and> 200 > tokenExpiry ex_insp \<and>
   validate ex_hash ex_store ''i1'' (Some ''wrong'') None 200 = Inl InvalidToken"
  by (simp add: validate_def token_checks_def find_insp_def ex_store_def ex_insp_def
      ex_hash_def or_str_def truthy_str_def)

text \<open>
  C1, amended. For an inspection that exists, the validate endpoint and the token checks
  of upload intake give the same verdict. After the expiry every request is rejected,
  with \<open>TokenExpired\<close> when a token is presented and its hash is the stored one. Up to
  the expiry a presented token with the stored hash passes: validate succeeds, and the
  upload goes on to the file check. A missing or empty token is rejected with
  \<open>MissingToken\<close> and a token with another hash with \<open>InvalidToken\<close>, expired or
  not. The rejecting branches of the upload handler write nothing to data.json; the
  file of the request, which multer stored before the checks, stays in the directory.
\<close>

theorem token_validation_fails_closed:
  assumes "find_insp s (r_id req) = Some insp"
  shows
    "(now_check env > tokenExpiry insp \<longrightarrow>
        (\<exists>e. validate h s (r_id req) (r_query_t req) (r_x_token req) (now_check env) = Inl e \<and>
             upload_handler h s req env = (Inl e, s))) \<and>
     (now_check env > tokenExpiry insp \<and> truthy_str (or_str (r_query_t req) (r_x_token req)) \<and>
      h (the (or_str (r_query_t req) (r_x_token req))) = tokenHash insp \<longrightarrow>
        validate h s (r_id req) (r_query_t req) (r_x_token req) (now_check env) = Inl TokenExpired \<and>
        upload_handler h s req env = (Inl TokenExpired, s)) \<and>
     (now_check env \<le> tokenExpiry insp \<and> truthy_str (or_str (r_query_t req) (r_x_token req)) \<and>
      h (the (or_str (r_query_t req) (r_x_token req))) = tokenHash insp \<longrightarrow>
        validate h s (r_id req) (r_query_t req) (r_x_token req) (now_check env) =
          Inr \<lparr>ok_id = id_i insp, ok_orderId = orderId insp\<rparr> \<and>
        (r_file req \<noteq> None \<longrightarrow> (\<exists>u. fst (upload_handler h s req env) = Inr u)) \<and>
        (r_file req = None \<longrightarrow> upload_handler h s req env = (Inl NoFile, s))) \<and>
     (\<not> truthy_str (or_str (r_query_t req) (r_x_token req)) \<longrightarrow>
        validate h s (r_id req) (r_query_t req) (r_x_token req) (now_check env) = Inl MissingToken \<and>
        upload_handler h s req env = (Inl MissingToken, s)) \<and>
     (truthy_str (or_str (r_query_t req) (r_x_token req)) \<and>
      h (the (or_str (r_query_t req) (r_x_token req))) \<noteq> tokenHash insp \<longrightarrow>
        validate h s (r_id req) (r_query_t req) (r_x_token req) (now_check env) = Inl InvalidToken \<and>
        upload_handler h s req env = (Inl InvalidToken, s)) \<and>
     (\<forall>e f. fst (upload_handler h s req env) = Inl e \<and> r_file req = Some f \<longrightarrow>
        upload_route h s dir req env = (Inl e, s, dir @ [f_filename f]))"
  using assms
  by (auto simp add: token_checks_cases validate_def upload_handler_def upload_route_def
      stored_by_multer_def Let_def)

theorem token_validation_fails_closed_witness:
  "validate ex_hash ex_store ''i1'' (Some ''good'') None 50 =
     Inr \<lparr>ok_id = ''i1'', ok_orderId = Some ''o1''\<rparr> \<and>
   (\<exists>u. fst (upload_handler ex_hash ex_store ex_req ex_env) = Inr u) \<and>
   validate ex_hash ex_store ''i1'' (Some ''good'') None 200 = Inl TokenExpired \<and>
   upload_handler ex_hash ex_store ex_req (ex_env\<lparr>now_check := 200\<rparr>)
     = (Inl TokenExpired, ex_store) \<and>
   upload_route ex_hash ex_store [] ex_req (ex_env\<lparr>now_check := 200\<rparr>)
     = (Inl TokenExpired, ex_store, [''u1.txt'']) \<and>
   validate ex_hash ex_store ''i1'' None (Some ''bad'') 50 = Inl InvalidToken \<and>
   validate ex_hash ex_store ''i1'' (Some []) None 50 = Inl MissingToken"
proof -
  have f: "find_insp ex_store (r_id ex_req) = Some ex_insp"
    by (simp add: find_ex_insp ex_req_def)
  have g: "find_insp ex_store (r_id (ex_req\<lparr>r_query_t := None, r_x_token := Some ''bad''\<rparr>))
             = Some ex_insp"
    by (simp add: find_ex_insp ex_req_def)
  have k: "find_insp ex_store (r_id (ex_req\<lparr>r_query_t := Some []\<rparr>)) = Some ex_insp"
    by (simp add: find_ex_insp ex_req_def)
  show ?thesis
    using token_validation_fails_closed [OF f, of ex_env ex_hash "[]"]
      token_validation_fails_closed [OF f, of "ex_env\<lparr>now_check := 200\<rparr>" ex_hash "[]"]
      token_validation_fails_closed [OF g, of ex_env ex_hash "[]"]
      token_validation_fails_closed [OF k, of ex_env ex_hash "[]"]
    by (simp add: ex_req_def ex_env_def ex_insp_def ex_hash_def ex_file_def or_str_def
        truthy_str_def)
qed

section \<open>The score, its bounds and its levels\<close>

lemma signal_fst: "fst (signal c w t acc) = fst acc + (if c then w else 0)"
  by (simp add: signal_def)

lemma signal_len: "length (snd (signal c w t acc)) = length (snd acc) + (if c then 1 else 0)"
  by (simp add: signal_def)

lemma vin_mismatch_signal_fst:
  "fst (vin_mismatch_signal insp ups acc) = fst acc + (if vin_mismatch insp ups then 35 else 0)"
  by (simp add: vin_mismatch_signal_def vin_mismatch_def signal_fst split: option.splits)

lemma vin_mismatch_signal_len:
  "length (snd (vin_mismatch_signal insp ups acc)) =
     length (snd acc) + (if vin_mismatch insp ups then 1 else 0)"
  by (simp add: vin_mismatch_signal_def vin_mismatch_def signal_len split: option.splits)

lemma title_flip_signal_fst:
  "fst (title_flip_signal vr acc) = fst acc + (if title_flip vr then 15 else 0)"
  by (simp add: title_flip_signal_def title_flip_def signal_fst split: option.splits)

lemma title_flip_signal_len:
  "length (snd (title_flip_signal vr acc)) = length (snd acc) + (if title_flip vr then 1 else 0)"
  by (simp add: title_flip_signal_def title_flip_def signal_len split: option.splits)

lemma run_signals_score: "fst (run_signals insp ups vr) = weight_sum insp ups vr"
  by (simp add: run_signals_def weight_sum_def Let_def signal_fst vin_mismatch_signal_fst
      title_flip_signal_fst)

lemma run_signals_flags: "length (snd (run_signals insp ups vr)) = trigger_count insp ups vr"
  by (simp add: run_signals_def trigger_count_def Let_def signal_len vin_mismatch_signal_len
      title_flip_signal_len)

lemma weight_sum_nonneg: "0 \<le> weight_sum insp ups vr"
  by (simp add: weight_sum_def)

lemma fraud_score_found:
  assumes "find_insp s rid = Some insp"
  shows "fraud_score s rid now =
    (Inr (assessment insp (run_signals insp (uploads_of s insp) (vinRecord_of s insp)) now),
     set_insp rid (\<lambda>i. i\<lparr>fraudScore :=
        Some (assessment insp (run_signals insp (uploads_of s insp) (vinRecord_of s insp)) now)\<rparr>) s)"
  using assms by (simp add: fraud_score_def Let_def)

lemma fraud_score_Inr:
  assumes "fraud_score s rid now = (Inr r, s')"
  shows "\<exists>insp. find_insp s rid = Some insp"
  using assms by (cases "find_insp s rid") (simp_all add: fraud_score_def)

text \<open>
  C2. Every assessment the engine returns has a score equal to the sum of the weights of
  the triggered signals capped at 100, between 0 and 100; its level is low below 30,
  medium from 30 to 69 and high from 70 on; autoFlag holds exactly from 70 on. The level
  and the flag are \<open>level_of\<close> and \<open>autoFlag_of\<close> of the score, which give medium
  and no flag at 69, high and the flag at 70.
\<close>

theorem fraud_score_bounds_and_levels:
  assumes "fraud_score s rid now = (Inr r, s')"
  shows
    "(\<exists>insp. find_insp s rid = Some insp \<and>
        score r = min (weight_sum insp (uploads_of s insp) (vinRecord_of s insp)) 100) \<and>
     0 \<le> score r \<and> score r \<le> 100 \<and>
     (level r = ''low'' \<longleftrightarrow> score r < 30) \<and>
     (level r = ''medium'' \<longleftrightarrow> 30 \<le> score r \<and> score r < 70) \<and>
     (level r = ''high'' \<longleftrightarrow> 70 \<le> score r) \<and>
     (autoFlag r \<longleftrightarrow> 70 \<le> score r) \<and>
     level r = level_of (score r) \<and> autoFlag r = autoFlag_of (score r) \<and>
     level_of 69 = ''medium'' \<and> \<not> autoFlag_of 69 \<and>
     level_of 70 = ''high'' \<and> autoFlag_of 70"
proof -
  from assms obtain insp where f: "find_insp s rid = Some insp"
    using fraud_score_Inr by blast
  let ?w = "weight_sum insp (uploads_of s insp) (vinRecord_of s insp)"
  from assms f have r: "r = assessment insp (run_signals insp (uploads_of s insp) (vinRecord_of s insp)) now"
    by (simp add: fraud_score_found)
  have sc: "score r = min ?w 100"
    by (simp add: r assessment_def Let_def run_signals_score)
  have lv: "level r = level_of (score r)" "autoFlag r = autoFlag_of (score r)"
    by (simp_all add: r assessment_def Let_def)
  have nn: "0 \<le> ?w" by (rule weight_sum_nonneg)
  show ?thesis
    using f sc lv nn by (auto simp add: level_of_def autoFlag_of_def)
qed

text \<open>The document \<open>scenario_70\<close> scores 70: level high, flagged.\<close>

lemma find_scenario_70: "find_insp scenario_70 ''i3'' = Some (insp_c\<lparr>sellerZip := Some ''10001''\<rparr>)"
  by (simp add: find_insp_def scenario_70_def insp_c_def)

lemma weight_scenario_70:
  "weight_sum (insp_c\<lparr>sellerZip := Some ''10001''\<rparr>)
     (uploads_of scenario_70 (insp_c\<lparr>sellerZip := Some ''10001''\<rparr>))
     (vinRecord_of scenario_70 (insp_c\<lparr>sellerZip := Some ''10001''\<rparr>)) = 70"
  by (simp add: weight_sum_def uploads_of_def vinRecord_of_def scenario_70_def insp_c_def
      ex_insp_def history_c_def odometer_photo_def ex_vin_def
      gps_mismatch_def gpsCoords_def gps_of_def truthy_str_def
      odometer_discrepancy_def lastReading_of_def declaredMileage_def historyMileage_def
      undisclosed_damage_def damageDetections_def has_predictions_def
      vin_mismatch_def vinPlateUpload_def title_flip_def ownership_count_def
      lowQualityCount_def has_warnings_def)

theorem fraud_score_bounds_and_levels_witness:
  "map_sum id (\<lambda>r. (score r, level r, autoFlag r)) (fst (fraud_score scenario_70 ''i3'' 7))
     = Inr (70, ''high'', True)"
proof -
  note e = fraud_score_found [OF find_scenario_70, of 7]
  show ?thesis
    using fraud_score_bounds_and_levels [OF e]
    by (simp add: e find_scenario_70 weight_scenario_70)
qed

section \<open>Signal 2: the odometer discrepancy\<close>

lemma signal_set: "set (snd (signal c w t acc)) = set (snd acc) \<union> (if c then {t} else {})"
  by (simp add: signal_def)

lemma show_nat_hd: "\<exists>d r. d < 10 \<and> show_nat n = digit_char d # r"
proof (induction n rule: show_nat.induct)
  case (1 n)
  show ?case
  proof (cases "n < 10")
    case True
    then show ?thesis by (subst show_nat.simps) auto
  next
    case False
    with 1 obtain d r where "d < 10" "show_nat (n div 10) = digit_char d # r" by blast
    with False show ?thesis by (subst show_nat.simps) auto
  qed
qed

lemma digit_char_not_O: "d < 10 \<Longrightarrow> digit_char d \<noteq> CHR ''O''"
proof
  assume d: "d < 10" and e: "digit_char d = CHR ''O''"
  from e have "(of_char (digit_char d) :: nat) = of_char (CHR ''O'')" by simp
  with d show False by (simp add: digit_char_def)
qed

lemma odometer_flag_hd: "\<exists>r. odometer_flag insp vr = CHR ''O'' # r"
  by (simp add: odometer_flag_def)

lemma odometer_flag_in_flags:
  "odometer_flag insp vr \<in> set (snd (run_signals insp ups vr)) \<longleftrightarrow> odometer_discrepancy insp ups vr"
proof -
  obtain r where o: "odometer_flag insp vr = CHR ''O'' # r" using odometer_flag_hd by blast
  obtain d t where q: "d < 10" "show_nat (lowQualityCount ups) = digit_char d # t"
    using show_nat_hd by blast
  have a4: "odometer_flag insp vr \<in> set (snd (vin_mismatch_signal insp ups acc)) \<longleftrightarrow>
      odometer_flag insp vr \<in> set (snd acc)" for acc
    by (simp add: vin_mismatch_signal_def signal_set o split: option.splits)
  have a5: "odometer_flag insp vr \<in> set (snd (title_flip_signal vr acc)) \<longleftrightarrow>
      odometer_flag insp vr \<in> set (snd acc)" for acc
    by (simp add: title_flip_signal_def signal_set o split: option.splits)
  have a6: "odometer_flag insp vr \<noteq> show_nat (lowQualityCount ups) @ t'" for t'
    using q digit_char_not_O [of d] by (auto simp add: o)
  show ?thesis
    using a6 by (simp add: run_signals_def Let_def signal_set a4 a5) (auto simp add: o)
qed

lemma odometer_rule_eq:
  "odometer_rule s insp = odometer_discrepancy insp (uploads_of s insp) (vinRecord_of s insp)"
proof -
  have a: "(find (\<lambda>u. checkItem u = Some ''odometer'') (uploads_of s insp) \<noteq> None) =
      list_ex (\<lambda>u. inspectionId u = id_i insp \<and> checkItem u = Some ''odometer'') (uploads s)"
    by (auto simp add: find_None_iff list_ex_iff uploads_of_def)
  show ?thesis
    unfolding odometer_rule_def odometer_discrepancy_def a
    by (auto simp add: lastReading_of_def historyMileage_def split: option.splits)
qed

text \<open>
  C3, amended. Signal 2 adds 30 to the score and one flag to the list exactly when
  \<open>odometer_rule\<close> holds: the inspection has an upload whose checklist item is the
  odometer, a VIN record with a latest reading is found for its VIN, and the declared
  mileage is more than 5000 below that reading. The other five signals add their own
  weights and flags, and the score is capped at 100.
\<close>

theorem odometer_signal:
  assumes "fraud_score s rid now = (Inr r, s')" and "find_insp s rid = Some insp"
  shows
    "score r =
       min ((if gps_mismatch insp (uploads_of s insp) then 25 else 0) +
            (if odometer_rule s insp then 30 else 0) +
            (if undisclosed_damage insp (uploads_of s insp) then 20 else 0) +
            (if vin_mismatch insp (uploads_of s insp) then 35 else 0) +
            (if title_flip (vinRecord_of s insp) then 15 else 0) +
            (if lowQualityCount (uploads_of s insp) > 5 then 10 else 0)) 100 \<and>
     length (flags r) =
       (if gps_mismatch insp (uploads_of s insp) then 1 else 0) +
       (if odometer_rule s insp then 1 else 0) +
       (if undisclosed_damage insp (uploads_of s insp) then 1 else 0) +
       (if vin_mismatch insp (uploads_of s insp) then 1 else 0) +
       (if title_flip (vinRecord_of s insp) then 1 else 0) +
       (if lowQualityCount (uploads_of s insp) > 5 then 1 else 0) \<and>
     (odometer_flag insp (vinRecord_of s insp) \<in> set (flags r) \<longleftrightarrow> odometer_rule s insp)"
proof -
  from assms have r: "r = assessment insp (run_signals insp (uploads_of s insp) (vinRecord_of s insp)) now"
    by (simp add: fraud_score_found)
  have 1: "score r = min (weight_sum insp (uploads_of s insp) (vinRecord_of s insp)) 100"
    by (simp add: r assessment_def Let_def run_signals_score)
  have 2: "length (flags r) = trigger_count insp (uploads_of s insp) (vinRecord_of s insp)"
    by (simp add: r assessment_def Let_def run_signals_flags)
  have 3: "odometer_flag insp (vinRecord_of s insp) \<in> set (flags r) \<longleftrightarrow> odometer_rule s insp"
    by (simp add: r assessment_def Let_def odometer_flag_in_flags odometer_rule_eq)
  show ?thesis
    using 1 2 3 by (simp add: weight_sum_def trigger_count_def odometer_rule_eq)
qed

lemma find_scenario_c_photo: "find_insp scenario_c_photo ''i3'' = Some insp_c"
  by (simp add: find_insp_def scenario_c_photo_def scenario_c_def insp_c_def)

lemmas scenario_defs =
  uploads_of_def vinRecord_of_def insp_c_def
  ex_insp_def history_c_def odometer_photo_def ex_vin_def
  gps_mismatch_def gpsCoords_def gps_of_def truthy_str_def truthy_bool_def
  odometer_discrepancy_def lastReading_of_def declaredMileage_def historyMileage_def
  undisclosed_damage_def damageDetections_def has_predictions_def
  vin_mismatch_def vinPlateUpload_def title_flip_def ownership_count_def
  lowQualityCount_def has_warnings_def

lemma scenario_c_photo_facts:
  "\<not> gps_mismatch insp_c (uploads_of scenario_c_photo insp_c)"
  "odometer_rule scenario_c_photo insp_c"
  "\<not> undisclosed_damage insp_c (uploads_of scenario_c_photo insp_c)"
  "\<not> vin_mismatch insp_c (uploads_of scenario_c_photo insp_c)"
  "\<not> title_flip (vinRecord_of scenario_c_photo insp_c)"
  "\<not> lowQualityCount (uploads_of scenario_c_photo insp_c) > 5"
  by (simp_all add: odometer_rule_def scenario_c_photo_def scenario_c_def scenario_defs)

text \<open>
  Scenario C with an odometer photo among the uploads: 45000 declared, 52000 in the
  history, score 30, level medium, one flag.
\<close>

theorem odometer_signal_witness:
  "map_sum id (\<lambda>r. (score r, level r, length (flags r)))
     (fst (fraud_score scenario_c_photo ''i3'' 0)) = Inr (30, ''medium'', 1)"
proof -
  note e = fraud_score_found [OF find_scenario_c_photo, of 0]
  show ?thesis
    using odometer_signal [OF e find_scenario_c_photo]
    by (simp add: e scenario_c_photo_facts assessment_def Let_def level_of_def)
qed

lemma run_signals_none:
  assumes "\<not> gps_mismatch insp ups" and "\<not> odometer_discrepancy insp ups vr"
    and "\<not> undisclosed_damage insp ups" and "\<not> vin_mismatch insp ups"
    and "\<not> title_flip vr" and "\<not> lowQualityCount ups > 5"
  shows "run_signals insp ups vr = (0, [])"
proof -
  have 4: "vin_mismatch_signal insp ups acc = acc" for acc
    using assms(4) by (auto simp add: vin_mismatch_signal_def vin_mismatch_def signal_def
        split: option.splits)
  have 5: "title_flip_signal vr acc = acc" for acc
    using assms(5) by (auto simp add: title_flip_signal_def title_flip_def signal_def
        split: option.splits)
  have s: "signal False w t acc = acc" for w t acc
    by (simp add: signal_def)
  show ?thesis
    using assms(1,2,3,6) by (simp only: run_signals_def Let_def 4 5 s)
qed

lemma find_scenario_c: "find_insp scenario_c ''i3'' = Some insp_c"
  by (simp add: find_insp_def scenario_c_def insp_c_def)

lemma find_scenario_boundary:
  "find_insp scenario_boundary ''i3'' = Some (insp_c\<lparr>odometerReading := Some 47000\<rparr>)"
  by (simp add: find_insp_def scenario_boundary_def insp_c_def)

lemma scenario_c_facts:
  "\<not> gps_mismatch insp_c (uploads_of scenario_c insp_c)"
  "\<not> odometer_discrepancy insp_c (uploads_of scenario_c insp_c) (vinRecord_of scenario_c insp_c)"
  "\<not> undisclosed_damage insp_c (uploads_of scenario_c insp_c)"
  "\<not> vin_mismatch insp_c (uploads_of scenario_c insp_c)"
  "\<not> title_flip (vinRecord_of scenario_c insp_c)"
  "\<not> lowQualityCount (uploads_of scenario_c insp_c) > 5"
  by (simp_all add: scenario_c_def scenario_defs)

lemma scenario_boundary_facts:
  "\<not> gps_mismatch (insp_c\<lparr>odometerReading := Some 47000\<rparr>)
       (uploads_of scenario_boundary (insp_c\<lparr>odometerReading := Some 47000\<rparr>))"
  "\<not> odometer_discrepancy (insp_c\<lparr>odometerReading := Some 47000\<rparr>)
       (uploads_of scenario_boundary (insp_c\<lparr>odometerReading := Some 47000\<rparr>))
       (vinRecord_of scenario_boundary (insp_c\<lparr>odometerReading := Some 47000\<rparr>))"
  "\<not> undisclosed_damage (insp_c\<lparr>odometerReading := Some 47000\<rparr>)
       (uploads_of scenario_boundary (insp_c\<lparr>odometerReading := Some 47000\<rparr>))"
  "\<not> vin_mismatch (insp_c\<lparr>odometerReading := Some 47000\<rparr>)
       (uploads_of scenario_boundary (insp_c\<lparr>odometerReading := Some 47000\<rparr>))"
  "\<not> title_flip (vinRecord_of scenario_boundary (insp_c\<lparr>odometerReading := Some 47000\<rparr>))"
  "\<not> lowQualityCount (uploads_of scenario_boundary (insp_c\<lparr>odometerReading := Some 47000\<rparr>)) > 5"
  by (simp_all add: scenario_boundary_def scenario_c_photo_def scenario_c_def scenario_defs)

text \<open>
  C3, as stated, fails twice. Scenario C as the claim gives it, with no odometer upload,
  scores 0: the signal is not evaluated without one. And with the photo, a declared
  mileage exactly 5000 below the reading (47000 against 52000) does not trigger it: the
  comparison is strict.
\<close>

theorem odometer_signal_counterexample:
  "map_sum id (\<lambda>r. (score r, level r, flags r)) (fst (fraud_score scenario_c ''i3'' 0))
     = Inr (0, ''low'', []) \<and>
   map_sum id (\<lambda>r. (score r, level r, flags r)) (fst (fraud_score scenario_boundary ''i3'' 0))
     = Inr (0, ''low'', [])"
  by (simp add: fraud_score_found [OF find_scenario_c] fraud_score_found [OF find_scenario_boundary]
      run_signals_none [OF scenario_c_facts] run_signals_none [OF scenario_boundary_facts]
      assessment_def level_of_def)

section \<open>Scoring again\<close>

lemma find_update_first:
  assumes "\<And>x. P (f x) = P x"
  shows "find P (update_first P f xs) = map_option f (find P xs)"
  using assms by (induction xs) auto

lemma find_insp_set_insp:
  assumes "\<And>i. id_i (f i) = id_i i"
  shows "find_insp (set_insp rid f s) rid = map_option f (find_insp s rid)"
  using assms by (simp add: find_insp_def set_insp_def find_update_first)

lemma uploads_set_insp: "uploads (set_insp rid f s) = uploads s"
  by (simp add: set_insp_def)

lemma vinRecords_set_insp: "vinRecords (set_insp rid f s) = vinRecords s"
  by (simp add: set_insp_def)

lemma signals_fraudScore:
  "gps_mismatch (i\<lparr>fraudScore := x\<rparr>) ups = gps_mismatch i ups"
  "odometer_discrepancy (i\<lparr>fraudScore := x\<rparr>) ups vr = odometer_discrepancy i ups vr"
  "odometer_flag (i\<lparr>fraudScore := x\<rparr>) vr = odometer_flag i vr"
  "undisclosed_damage (i\<lparr>fraudScore := x\<rparr>) ups = undisclosed_damage i ups"
  "vin_mismatch_signal (i\<lparr>fraudScore := x\<rparr>) ups acc = vin_mismatch_signal i ups acc"
  by (simp_all add: gps_mismatch_def odometer_discrepancy_def odometer_flag_def
      declaredMileage_def undisclosed_damage_def vin_mismatch_signal_def split: option.splits)

lemma run_signals_fraudScore:
  "run_signals (i\<lparr>fraudScore := x\<rparr>) ups vr = run_signals i ups vr"
  by (simp only: run_signals_def signals_fraudScore)

lemma assessment_fraudScore:
  "assessment (i\<lparr>fraudScore := x\<rparr>) acc now = assessment i acc now"
  by (simp add: assessment_def)

lemma assessment_timestamp:
  "assessment i acc t2 = (assessment i acc t1)\<lparr>timestamp_r := t2\<rparr>"
  by (simp add: assessment_def Let_def)

lemma run_signals_inputs:
  assumes "vin i' = vin i" and "sellerZip i' = sellerZip i"
    and "odometerReading i' = odometerReading i"
    and "sellerDisclosedDamage i' = sellerDisclosedDamage i"
  shows "run_signals i' ups vr = run_signals i ups vr"
proof -
  have "gps_mismatch i' ups = gps_mismatch i ups"
    "odometer_discrepancy i' ups vr = odometer_discrepancy i ups vr"
    "odometer_flag i' vr = odometer_flag i vr"
    "undisclosed_damage i' ups = undisclosed_damage i ups"
    "vin_mismatch_signal i' ups acc = vin_mismatch_signal i ups acc" for acc
    using assms
    by (simp_all add: gps_mismatch_def odometer_discrepancy_def odometer_flag_def
        declaredMileage_def undisclosed_damage_def vin_mismatch_signal_def split: option.splits)
  then show ?thesis by (simp only: run_signals_def)
qed

lemma assessment_inputs:
  assumes "id_i i' = id_i i" and "vin i' = vin i"
  shows "assessment i' acc now = assessment i acc now"
  using assms by (simp add: assessment_def)

text \<open>
  C5, amended. The assessment is a function of the inspection, its uploads, its VIN record
  and the clock: \<open>timestamp\<close> is the reading of \<^verbatim>\<open>Date.now()\<close> at the request. Run
  again at another instant, on the same document or on the document the first run
  wrote (which differs only in the \<open>fraudScore\<close> it stored), the engine returns the
  first assessment with the new instant as its \<open>timestamp\<close>: inspection id, VIN,
  score, level, autoFlag and flags are equal. The same holds on any other document in
  which the inspection with that id has the same id, VIN, seller ZIP, odometer reading
  and damage disclosure, the same uploads and the same VIN record, whatever else the
  document holds.
\<close>

theorem fraud_score_repeatable:
  assumes "fraud_score s rid t1 = (Inr r1, s1)"
  shows "timestamp_r r1 = t1 \<and>
     fst (fraud_score s rid t2) = Inr (r1\<lparr>timestamp_r := t2\<rparr>) \<and>
     fst (fraud_score s1 rid t2) = Inr (r1\<lparr>timestamp_r := t2\<rparr>) \<and>
     (\<forall>s' insp insp'.
        find_insp s rid = Some insp \<and> find_insp s' rid = Some insp' \<and>
        id_i insp' = id_i insp \<and> vin insp' = vin insp \<and> sellerZip insp' = sellerZip insp \<and>
        odometerReading insp' = odometerReading insp \<and>
        sellerDisclosedDamage insp' = sellerDisclosedDamage insp \<and>
        uploads_of s' insp' = uploads_of s insp \<and>
        vinRecord_of s' insp' = vinRecord_of s insp \<longrightarrow>
        fst (fraud_score s' rid t2) = Inr (r1\<lparr>timestamp_r := t2\<rparr>))"
proof -
  from assms obtain insp where f: "find_insp s rid = Some insp"
    using fraud_score_Inr by blast
  let ?acc = "run_signals insp (uploads_of s insp) (vinRecord_of s insp)"
  from assms f have r1: "r1 = assessment insp ?acc t1"
    and s1: "s1 = set_insp rid (\<lambda>i. i\<lparr>fraudScore := Some (assessment insp ?acc t1)\<rparr>) s"
    by (auto simp add: fraud_score_found)
  have a: "timestamp_r r1 = t1" by (simp add: r1 assessment_def Let_def)
  have d: "fst (fraud_score s' rid t2) = Inr (r1\<lparr>timestamp_r := t2\<rparr>)"
    if f': "find_insp s' rid = Some insp'"
      and e: "id_i insp' = id_i insp" "vin insp' = vin insp" "sellerZip insp' = sellerZip insp"
        "odometerReading insp' = odometerReading insp"
        "sellerDisclosedDamage insp' = sellerDisclosedDamage insp"
      and u: "uploads_of s' insp' = uploads_of s insp"
      and v: "vinRecord_of s' insp' = vinRecord_of s insp"
    for s' insp'
  proof -
    have "fst (fraud_score s' rid t2) = Inr (assessment insp ?acc t2)"
      by (simp add: fraud_score_found [OF f'] u v run_signals_inputs [OF e(2-5)]
          assessment_inputs [OF e(1,2)])
    then show ?thesis
      unfolding r1 by (simp add: assessment_timestamp [of insp ?acc t2 t1])
  qed
  have b: "fst (fraud_score s rid t2) = Inr (r1\<lparr>timestamp_r := t2\<rparr>)"
    using d [OF f] by simp
  have f1: "find_insp s1 rid = Some (insp\<lparr>fraudScore := Some r1\<rparr>)"
    by (simp add: s1 r1 find_insp_set_insp f)
  have u1: "uploads_of s1 (insp\<lparr>fraudScore := Some r1\<rparr>) = uploads_of s insp"
    by (simp add: uploads_of_def s1 uploads_set_insp)
  have v1: "vinRecord_of s1 (insp\<lparr>fraudScore := Some r1\<rparr>) = vinRecord_of s insp"
    by (simp add: vinRecord_of_def s1 vinRecords_set_insp split: option.splits)
  have c: "fst (fraud_score s1 rid t2) = Inr (r1\<lparr>timestamp_r := t2\<rparr>)"
    using d [OF f1 _ _ _ _ _ u1 v1] by simp
  from a b c d f show ?thesis by auto
qed

text \<open>
  C5, as stated, fails: two runs on the same document at the instants 1 and 2 return
  records that differ (in \<open>timestamp\<close>).
\<close>

theorem fraud_score_timestamp_counterexample:
  "fst (fraud_score ex_store ''i1'' 1) \<noteq> fst (fraud_score ex_store ''i1'' 2)"
  by (simp add: fraud_score_found [OF find_ex_insp] assessment_def Let_def)

text \<open>
  The example inspection scores the same in a document that also holds another
  inspection and an upload of that other inspection.
\<close>

lemma find_ex_crowded:
  "find_insp (ex_store\<lparr>inspections := [ex_insp, insp_c], uploads := [odometer_photo]\<rparr>) ''i1''
     = Some ex_insp"
  by (simp add: find_insp_def ex_insp_def)

theorem fraud_score_repeatable_witness:
  "map_sum id timestamp_r (fst (fraud_score ex_store ''i1'' 1)) = Inr 1 \<and>
   fst (fraud_score (snd (fraud_score ex_store ''i1'' 1)) ''i1'' 2)
     = fst (fraud_score ex_store ''i1'' 2) \<and>
   fst (fraud_score (ex_store\<lparr>inspections := [ex_insp, insp_c], uploads := [odometer_photo]\<rparr>)
          ''i1'' 2)
     = fst (fraud_score ex_store ''i1'' 2)"
proof -
  note e = fraud_score_found [OF find_ex_insp, of 1]
  have u: "uploads_of (ex_store\<lparr>inspections := [ex_insp, insp_c], uploads := [odometer_photo]\<rparr>)
      ex_insp = uploads_of ex_store ex_insp"
    by (simp add: uploads_of_def ex_store_def ex_insp_def odometer_photo_def)
  have v: "vinRecord_of (ex_store\<lparr>inspections := [ex_insp, insp_c], uploads := [odometer_photo]\<rparr>)
      ex_insp = vinRecord_of ex_store ex_insp"
    by (simp add: vinRecord_of_def)
  show ?thesis
    using fraud_score_repeatable [OF e, of 2] find_ex_insp find_ex_crowded u v
    by (simp add: e)
qed

section \<open>The link between an inspection and its VIN record\<close>

lemma toUpper_not_lower: "\<not> isLower (toUpper c)"
proof (cases "isLower c")
  case True
  then have "97 \<le> (of_char c :: nat)" "(of_char c :: nat) \<le> 122"
    by (simp_all add: isLower_def)
  then have "(of_char (char_of ((of_char c :: nat) - 32)) :: nat) = of_char c - 32"
    by simp
  with True \<open>97 \<le> (of_char c :: nat)\<close> \<open>(of_char c :: nat) \<le> 122\<close> show ?thesis
    by (simp add: toUpper_def isLower_def)
next
  case False
  then show ?thesis by (simp add: toUpper_def)
qed

lemma toUpperCase_no_lower: "\<not> list_ex isLower (toUpperCase v)"
  by (simp add: toUpperCase_def list_ex_iff toUpper_not_lower)

lemma vins_upper_stored:
  "vins_upper s = list_all (\<lambda>v. \<not> list_ex isLower v) (stored_vins s)"
  by (auto simp add: vins_upper_def stored_vins_def list_all_iff split: option.splits)

lemma save_vin_record_upper:
  assumes "vins_upper s"
  shows "vins_upper (snd (save_vin_record s x ts nid t))"
  using assms
  by (auto simp add: save_vin_record_def vins_upper_def Let_def toUpperCase_no_lower
      split: option.splits)

text \<open>Of the handlers that write the document, only the VIN-record one touches the records.\<close>

lemma vinRecords_upload_handler: "vinRecords (snd (upload_handler h s req env)) = vinRecords s"
  by (simp add: upload_handler_def Let_def vinRecords_set_insp split: sum.splits option.splits)

lemma vinRecords_notify_handler: "vinRecords (snd (notify_handler h s req env)) = vinRecords s"
  by (simp add: notify_handler_def Let_def vinRecords_set_insp split: sum.splits)

lemma vinRecords_fraud_score: "vinRecords (snd (fraud_score s rid now)) = vinRecords s"
  by (simp add: fraud_score_def Let_def vinRecords_set_insp split: option.splits)

lemma vinRecords_email_report: "vinRecords (snd (email_report s rid to env)) = vinRecords s"
  by (simp add: email_report_def Let_def vinRecords_set_insp split: option.splits)

lemma vinRecords_worker_job: "vinRecords (worker_job s rid to env) = vinRecords s"
  by (simp add: worker_job_def Let_def vinRecords_set_insp split: option.splits)

lemma vinRecords_chat_handler: "vinRecords (snd (chat_handler s rid msg env)) = vinRecords s"
  by (simp add: chat_handler_def Let_def vinRecords_set_insp vinRecords_fraud_score
      split: option.splits)

lemma vinRecords_roboflow_detect: "vinRecords (snd (roboflow_detect s req env)) = vinRecords s"
  by (simp add: roboflow_detect_def Let_def split: fetch_outcome.splits)

lemma vinRecords_step:
  "vinRecords (step h s rq) = vinRecords s \<or> (\<exists>v ts nid now. rq = SaveVinRecord v ts nid now)"
proof (cases rq)
  case (Create b nid token now now')
  then show ?thesis by (simp add: create_inspection_def)
next
  case (Upload req env)
  then show ?thesis by (simp add: vinRecords_upload_handler)
next
  case (Notify req env)
  then show ?thesis by (simp add: vinRecords_notify_handler)
next
  case (MarkComplete rid)
  then show ?thesis
    by (simp add: mark_complete_def vinRecords_set_insp split: option.splits)
next
  case (Tire rid payload now)
  then show ?thesis
    by (simp add: tire_handler_def vinRecords_set_insp split: option.splits)
next
  case (PostUpdate rid b now)
  then show ?thesis
    by (simp add: post_update_def vinRecords_set_insp split: option.splits)
next
  case (PutUpdate rid b now)
  then show ?thesis
    by (simp add: put_update_def vinRecords_set_insp split: option.splits)
next
  case (GeneratePdf rid puppeteer pdf_ok now)
  then show ?thesis
    by (simp add: generate_pdf_def vinRecords_set_insp split: option.splits)
next
  case (EmailReport rid to env)
  then show ?thesis by (simp add: vinRecords_email_report)
next
  case (WorkerJob rid to env)
  then show ?thesis by (simp add: vinRecords_worker_job)
next
  case (FraudScore rid now)
  then show ?thesis by (simp add: vinRecords_fraud_score)
next
  case (GenerateAiReport rid configured md now)
  then show ?thesis
    by (simp add: generate_ai_report_def vinRecords_set_insp split: option.splits)
next
  case (ApproveReport rid who now)
  then show ?thesis
    by (simp add: approve_report_def vinRecords_set_insp split: option.splits)
next
  case (SaveVinRecord v ts nid now)
  then show ?thesis by simp
next
  case (Detect req env)
  then show ?thesis by (simp add: vinRecords_roboflow_detect)
next
  case (Chat rid msg env)
  then show ?thesis by (simp add: vinRecords_chat_handler)
qed

lemma vins_upper_step:
  assumes "vins_upper s"
  shows "vins_upper (step h s rq)"
proof (cases "\<exists>v ts nid now. rq = SaveVinRecord v ts nid now")
  case True
  then show ?thesis using save_vin_record_upper [OF assms] by auto
next
  case False
  with vinRecords_step [of h s rq] have "vinRecords (step h s rq) = vinRecords s" by simp
  with assms show ?thesis by (simp add: vins_upper_def)
qed

lemma vins_upper_foldl:
  assumes "vins_upper s"
  shows "vins_upper (foldl (step h) s rqs)"
  using assms by (induction rqs arbitrary: s) (simp_all add: vins_upper_step)

lemma vins_upper_run: "vins_upper (run h init_store rqs)"
  unfolding run_def by (rule vins_upper_foldl) (simp add: vins_upper_def init_store_def)

lemma lower_vin_no_record:
  assumes "vins_upper s" and "vin insp = Some v" and "list_ex isLower v"
  shows "vinRecord_of s insp = None"
proof (cases "vinRecords s")
  case None
  then show ?thesis by (simp add: vinRecord_of_def)
next
  case (Some vs)
  with assms(1) have "\<forall>r \<in> set vs. \<not> list_ex isLower (vin_v r)"
    by (simp add: vins_upper_def list_all_iff)
  with assms(2,3) have "\<forall>r \<in> set vs. Some (vin_v r) \<noteq> vin insp" by auto
  with Some show ?thesis by (simp add: vinRecord_of_def find_None_iff)
qed

text \<open>
  C9. \<^verbatim>\<open>POST /api/vin-records\<close> with a VIN in ASCII appends one record whose VIN is
  the request's with the letters a to z replaced by A to Z, and answers with its id; the
  VIN record of an inspection is looked up by equality of strings. So in every document
  whose VIN records carry the VINs that some sequence of requests to the writing
  handlers stored, starting from the empty file (the inspections, the uploads and the
  rest of each record may be anything: no handler writes the VIN of an inspection),
  an inspection whose declared VIN contains a letter a to z has no VIN record whatever
  the records hold: signals 2 and 5 do not trigger, and the score and the number of
  flags are those of signals 1, 3, 4 and 6 alone.
\<close>

theorem lowercase_vin_finds_no_history:
  assumes "stored_vins s = stored_vins (run h init_store rqs)"
    and "find_insp s rid = Some insp"
    and "vin insp = Some v" and "list_ex isLower v"
  shows
    "(truthy_str x \<and> list_all isAscii (the x) \<longrightarrow>
        (\<exists>r. save_vin_record s0 x ts nid t =
                (Inr nid,
                 s0\<lparr>vinRecords := Some ((case vinRecords s0 of None \<Rightarrow> [] | Some vs \<Rightarrow> vs) @ [r])\<rparr>) \<and>
              vin_v r = toUpperCase (the x)) \<and>
        stored_vins (snd (save_vin_record s0 x ts nid t)) = stored_vins s0 @ [toUpperCase (the x)]) \<and>
     vinRecord_of s insp = None \<and>
     \<not> odometer_discrepancy insp (uploads_of s insp) (vinRecord_of s insp) \<and>
     \<not> title_flip (vinRecord_of s insp) \<and>
     (\<exists>r s'. fraud_score s rid now = (Inr r, s') \<and>
        score r =
          min ((if gps_mismatch insp (uploads_of s insp) then 25 else 0) +
               (if undisclosed_damage insp (uploads_of s insp) then 20 else 0) +
               (if vin_mismatch insp (uploads_of s insp) then 35 else 0) +
               (if lowQualityCount (uploads_of s insp) > 5 then 10 else 0)) 100 \<and>
        length (flags r) =
          (if gps_mismatch insp (uploads_of s insp) then 1 else 0) +
          (if undisclosed_damage insp (uploads_of s insp) then 1 else 0) +
          (if vin_mismatch insp (uploads_of s insp) then 1 else 0) +
          (if lowQualityCount (uploads_of s insp) > 5 then 1 else 0))"
proof -
  have sv: "truthy_str x \<and> list_all isAscii (the x) \<longrightarrow>
        (\<exists>r. save_vin_record s0 x ts nid t =
                (Inr nid,
                 s0\<lparr>vinRecords := Some ((case vinRecords s0 of None \<Rightarrow> [] | Some vs \<Rightarrow> vs) @ [r])\<rparr>) \<and>
              vin_v r = toUpperCase (the x)) \<and>
        stored_vins (snd (save_vin_record s0 x ts nid t)) = stored_vins s0 @ [toUpperCase (the x)]"
    by (auto simp add: save_vin_record_def Let_def stored_vins_def split: option.splits)
  have "vins_upper (run h init_store rqs)" by (rule vins_upper_run)
  then have up: "vins_upper s"
    by (simp add: vins_upper_stored assms(1))
  have n: "vinRecord_of s insp = None"
    using up assms(3,4) by (rule lower_vin_no_record)
  have o: "\<not> odometer_discrepancy insp (uploads_of s insp) None"
    by (simp add: odometer_discrepancy_def lastReading_of_def)
  have f: "\<not> title_flip None"
    by (simp add: title_flip_def ownership_count_def)
  let ?r = "assessment insp (run_signals insp (uploads_of s insp) None) now"
  have e: "fraud_score s rid now =
      (Inr ?r, set_insp rid (\<lambda>i. i\<lparr>fraudScore := Some ?r\<rparr>) s)"
    using fraud_score_found [OF assms(2), of now] by (simp add: n)
  have sc: "score ?r = min (weight_sum insp (uploads_of s insp) None) 100"
    by (simp add: assessment_def Let_def run_signals_score)
  have fl: "length (flags ?r) = trigger_count insp (uploads_of s insp) None"
    by (simp add: assessment_def Let_def run_signals_flags)
  have rest: "vinRecord_of s insp = None \<and>
     \<not> odometer_discrepancy insp (uploads_of s insp) (vinRecord_of s insp) \<and>
     \<not> title_flip (vinRecord_of s insp) \<and>
     (\<exists>r s'. fraud_score s rid now = (Inr r, s') \<and>
        score r =
          min ((if gps_mismatch insp (uploads_of s insp) then 25 else 0) +
               (if undisclosed_damage insp (uploads_of s insp) then 20 else 0) +
               (if vin_mismatch insp (uploads_of s insp) then 35 else 0) +
               (if lowQualityCount (uploads_of s insp) > 5 then 10 else 0)) 100 \<and>
        length (flags r) =
          (if gps_mismatch insp (uploads_of s insp) then 1 else 0) +
          (if undisclosed_damage insp (uploads_of s insp) then 1 else 0) +
          (if vin_mismatch insp (uploads_of s insp) then 1 else 0) +
          (if lowQualityCount (uploads_of s insp) > 5 then 1 else 0))"
    using n o f e sc fl by (simp add: weight_sum_def trigger_count_def)
  from sv rest show ?thesis by (rule conjI)
qed

text \<open>
  A request that saves the VIN of scenario C in lower case stores it in upper case.
  \<open>scenario_lower\<close> holds that VIN in its record (with the reading 52000 and two
  transfers) and the odometer photo; with the VIN declared in lower case no record is
  found and the score is 0, while the same VIN in upper case finds the record.
\<close>

lemma find_scenario_lower:
  "find_insp scenario_lower ''i3'' = Some (insp_c\<lparr>vin := Some ''1hgcm82633a004352''\<rparr>)"
  by (simp add: find_insp_def scenario_lower_def insp_c_def)

lemma upper_ex_vin: "toUpperCase ''1hgcm82633a004352'' = ''1HGCM82633A004352''"
  by code_simp

lemma scenario_lower_stored:
  "stored_vins scenario_lower =
   stored_vins (run (\<lambda>t. t) init_store [SaveVinRecord (Some ''1hgcm82633a004352'') None ''v1'' 0])"
  by (simp add: run_def save_vin_record_def init_store_def stored_vins_def scenario_lower_def
      history_c_def ex_vin_def upper_ex_vin truthy_str_def Let_def)

lemma scenario_lower_facts:
  "\<not> gps_mismatch (insp_c\<lparr>vin := Some ''1hgcm82633a004352''\<rparr>)
       (uploads_of scenario_lower (insp_c\<lparr>vin := Some ''1hgcm82633a004352''\<rparr>))"
  "\<not> undisclosed_damage (insp_c\<lparr>vin := Some ''1hgcm82633a004352''\<rparr>)
       (uploads_of scenario_lower (insp_c\<lparr>vin := Some ''1hgcm82633a004352''\<rparr>))"
  "\<not> vin_mismatch (insp_c\<lparr>vin := Some ''1hgcm82633a004352''\<rparr>)
       (uploads_of scenario_lower (insp_c\<lparr>vin := Some ''1hgcm82633a004352''\<rparr>))"
  "\<not> lowQualityCount (uploads_of scenario_lower (insp_c\<lparr>vin := Some ''1hgcm82633a004352''\<rparr>)) > 5"
  by (simp_all add: scenario_lower_def scenario_defs)

theorem lowercase_vin_finds_no_history_witness:
  "stored_vins (snd (save_vin_record init_store (Some ''1hgcm82633a004352'') None ''v1'' 0))
     = [''1HGCM82633A004352''] \<and>
   vinRecord_of scenario_lower (insp_c\<lparr>vin := Some ''1hgcm82633a004352''\<rparr>) = None \<and>
   vinRecord_of scenario_lower insp_c \<noteq> None \<and>
   map_sum id (\<lambda>r. (score r, length (flags r))) (fst (fraud_score scenario_lower ''i3'' 0))
     = Inr (0, 0)"
proof -
  have l: "list_ex isLower ''1hgcm82633a004352''"
    by (simp add: isLower_def)
  have a: "list_all isAscii ''1hgcm82633a004352''"
    by (simp add: isAscii_def)
  have v: "vin (insp_c\<lparr>vin := Some ''1hgcm82633a004352''\<rparr>) = Some ''1hgcm82633a004352''"
    by simp
  have u: "vinRecord_of scenario_lower insp_c \<noteq> None"
    by (simp add: vinRecord_of_def scenario_lower_def insp_c_def history_c_def)
  have i: "stored_vins init_store = []"
    by (simp add: stored_vins_def init_store_def)
  have t: "truthy_str (Some ''1hgcm82633a004352'')"
    by (simp add: truthy_str_def)
  show ?thesis
    using lowercase_vin_finds_no_history [OF scenario_lower_stored find_scenario_lower v l,
        where x = "Some ''1hgcm82633a004352''" and ts = None and nid = "''v1''" and t = 0
          and now = 0 and ?s0.0 = init_store] u a i t
    by (auto simp add: scenario_lower_facts upper_ex_vin)
qed

section \<open>Uploads of payloads that are not images\<close>

lemma token_checks_Inr:
  assumes "token_checks h s rid qt xt now = Inr insp"
  shows "find_insp s rid = Some insp"
  using assms
  by (cases "find_insp s rid") (auto simp add: token_checks_def Let_def split: if_splits)

lemma upload_handler_ok:
  assumes "token_checks h s (r_id req) (r_query_t req) (r_x_token req) (now_check env) = Inr insp"
    and "r_file req = Some f"
  shows "upload_handler h s req env =
    (Inr (to_json (auto_detect env (analyse env (upload_entry req env f)))),
     set_insp (r_id req) submit_if_pending
       (s\<lparr>uploads := uploads s @
          [to_json (auto_detect env (analyse env (upload_entry req env f)))]\<rparr>))"
  using assms by (simp add: upload_handler_def Let_def)

lemma upload_handler_Inr:
  assumes "fst (upload_handler h s req env) = Inr u"
  shows "\<exists>insp f. token_checks h s (r_id req) (r_query_t req) (r_x_token req) (now_check env)
            = Inr insp \<and> r_file req = Some f"
  using assms by (auto simp add: upload_handler_def Let_def split: sum.splits option.splits)

lemma upload_handler_Inl:
  assumes "fst (upload_handler h s req env) = Inl e"
  shows "snd (upload_handler h s req env) = s"
  using assms by (auto simp add: upload_handler_def Let_def split: sum.splits option.splits)

lemma notify_handler_ok:
  assumes "truthy_str (n_key req)" and "truthy_str (n_filename req)"
    and "token_checks h s (n_id req) (n_query_t req) (n_x_token req) (now_check_n env) = Inr insp"
    and "\<not> coordinates_throw req"
  shows "notify_handler h s req env =
    (Inr (to_json (notify_entry req env)),
     set_insp (n_id req) submit_if_pending
       (s\<lparr>uploads := uploads s @ [to_json (notify_entry req env)]\<rparr>))"
  using assms by (simp add: notify_handler_def Let_def)

lemma notify_handler_Inr:
  assumes "fst (notify_handler h s req env) = Inr u"
  shows "truthy_str (n_key req) \<and> truthy_str (n_filename req) \<and> \<not> coordinates_throw req \<and>
     (\<exists>insp. token_checks h s (n_id req) (n_query_t req) (n_x_token req) (now_check_n env)
            = Inr insp)"
  using assms by (auto simp add: notify_handler_def Let_def split: sum.splits if_splits)

lemma notify_handler_Inl:
  assumes "fst (notify_handler h s req env) = Inl e"
  shows "snd (notify_handler h s req env) = s"
  using assms by (auto simp add: notify_handler_def Let_def split: sum.splits if_splits)

lemma analyse_fields:
  "detection (analyse env u) = detection u"
  "checkItem (analyse env u) = checkItem u"
  "lat (analyse env u) = lat u" "lng (analyse env u) = lng u"
  "accuracy (analyse env u) = accuracy u"
  by (simp_all add: analyse_def with_exif_def with_quality_def
      split: exif_outcome.splits sharp_outcome.splits option.splits)

lemma analyse_readable:
  assumes "readable env"
  shows "exif (analyse env u) = Some None \<longleftrightarrow> exif_out env = ExifThrows \<or> exif_out env = ExifParsed None \<and> exif u = Some None"
    and "quality (analyse env u) = Some None \<longleftrightarrow> sharp_out env = SharpThrows"
  using assms
  by (auto simp add: analyse_def with_exif_def with_quality_def
      split: exif_outcome.splits sharp_outcome.splits option.splits)

lemma analyse_unreadable:
  assumes "\<not> readable env"
  shows "analyse env u = u"
  using assms by (simp add: analyse_def)

lemma to_json_fields:
  "id_u (to_json u) = id_u u" "inspectionId (to_json u) = inspectionId u"
  "checkItem (to_json u) = checkItem u"
  "exif (to_json u) = exif u" "quality (to_json u) = quality u"
  "detection (to_json u) = detection u"
  "lat (to_json u) = json_num (lat u)" "lng (to_json u) = json_num (lng u)"
  "accuracy (to_json u) = json_num (accuracy u)"
  "(to_json u)\<lparr>detection := d\<rparr> = to_json (u\<lparr>detection := d\<rparr>)"
  by (simp_all add: to_json_def)

lemma auto_detect_fields:
  "exif (auto_detect env u) = exif u" "quality (auto_detect env u) = quality u"
  "lat (auto_detect env u) = lat u" "lng (auto_detect env u) = lng u"
  "accuracy (auto_detect env u) = accuracy u"
  "(auto_detect env u)\<lparr>detection := None\<rparr> = u\<lparr>detection := None\<rparr>"
  by (simp_all add: auto_detect_def split: fetch_outcome.splits option.splits)

text \<open>
  C6, as stated, fails. A payload of zero bytes is not a valid image; exif-parser reads
  it without throwing and returns an empty table of tags, so the handler stores an
  \<open>exif\<close> object whose properties are null, not an \<open>exif\<close> that is null. Only
  \<open>quality\<close>, for which sharp throws, is null.
\<close>

theorem invalid_image_exif_counterexample:
  "map_sum id (\<lambda>u. (exif u, quality u))
     (fst (upload_handler ex_hash ex_store ex_req zero_byte_env))
   = Inr (Some (Some \<lparr>gps = None, timestamp_e = None, make_e = None, model_e = None,
                       orientation = None\<rparr>), Some None)"
proof -
  have g: "token_checks ex_hash ex_store (r_id ex_req) (r_query_t ex_req) (r_x_token ex_req)
     (now_check zero_byte_env) = Inr ex_insp"
    by (simp add: token_checks_cases [OF find_ex_insp] ex_req_def ex_env_def ex_insp_def
        ex_hash_def or_str_def truthy_str_def zero_byte_env_def)
  have f: "r_file ex_req = Some ex_file"
    by (simp add: ex_req_def)
  show ?thesis
    unfolding upload_handler_ok [OF g f]
    by (simp add: to_json_fields auto_detect_fields analyse_def
        with_exif_def with_quality_def zero_byte_env_def ex_env_def no_tags_def upload_entry_def
        truthy_real_def or_int_def or_str_def truthy_int_def truthy_str_def)
qed

text \<open>
  C6, amended. An upload that passes the token checks and carries a file is created and
  returned whatever the two analyses do: the response is the entry and the entry is
  appended to the uploads. When the stored bytes can be read back, \<open>exif\<close> is an
  explicit null (\<open>Some None\<close>, not a missing property) exactly when the EXIF parser
  throws, and \<open>quality\<close> is an explicit null exactly when sharp throws. When the
  stored bytes cannot be read back, both properties are missing.
\<close>

theorem invalid_image_still_uploads:
  assumes "token_checks h s (r_id req) (r_query_t req) (r_x_token req) (now_check env) = Inr insp"
    and "r_file req = Some f"
  shows "\<exists>u. fst (upload_handler h s req env) = Inr u \<and>
     uploads (snd (upload_handler h s req env)) = uploads s @ [u] \<and>
     (readable env \<longrightarrow>
        (exif u = Some None \<longleftrightarrow> exif_out env = ExifThrows) \<and>
        (quality u = Some None \<longleftrightarrow> sharp_out env = SharpThrows)) \<and>
     (\<not> readable env \<longrightarrow> exif u = None \<and> quality u = None)"
proof -
  let ?u = "to_json (auto_detect env (analyse env (upload_entry req env f)))"
  have e: "exif ?u = exif (analyse env (upload_entry req env f))"
    and q: "quality ?u = quality (analyse env (upload_entry req env f))"
    by (simp_all add: to_json_fields auto_detect_fields)
  have n: "exif (upload_entry req env f) = None" "quality (upload_entry req env f) = None"
    by (simp_all add: upload_entry_def)
  have r: "readable env \<longrightarrow>
        (exif ?u = Some None \<longleftrightarrow> exif_out env = ExifThrows) \<and>
        (quality ?u = Some None \<longleftrightarrow> sharp_out env = SharpThrows)"
    by (simp add: e q analyse_readable n)
  have u: "\<not> readable env \<longrightarrow> exif ?u = None \<and> quality ?u = None"
    by (simp add: to_json_fields auto_detect_fields analyse_unreadable n)
  show ?thesis
    using r u by (simp add: upload_handler_ok [OF assms] uploads_set_insp)
qed

text \<open>The example request: a text file, on which both analyses throw.\<close>

lemma ex_gate:
  "token_checks ex_hash ex_store (r_id ex_req) (r_query_t ex_req) (r_x_token ex_req)
     (now_check ex_env) = Inr ex_insp"
  by (simp add: token_checks_cases [OF find_ex_insp] ex_req_def ex_env_def ex_insp_def
      ex_hash_def or_str_def truthy_str_def)

lemma ex_file_present: "r_file ex_req = Some ex_file"
  by (simp add: ex_req_def)

lemma ex_env_facts:
  "readable ex_env" "exif_out ex_env = ExifThrows" "sharp_out ex_env = SharpThrows"
  "roboflow_configured ex_env" "fetch_out ex_env = FetchResolved (Some [ex_prediction])"
  "now_detect ex_env = 60" "new_id ex_env = ''u1''"
  by (simp_all add: ex_env_def)

lemma ex_req_facts:
  "truthy_str (b_checkItem (r_body ex_req))" "b_lat (r_body ex_req) = Some (units ''abc'')"
  "b_lng (r_body ex_req) = None" "b_accuracy (r_body ex_req) = Some []"
  by (simp_all add: ex_req_def truthy_str_def)

lemma ex_uploads: "uploads ex_store = []"
  by (simp add: ex_store_def)

lemma id_u_kept:
  "id_u (to_json (auto_detect env (analyse env (upload_entry req env f)))) = new_id env"
  by (simp add: to_json_def auto_detect_def analyse_def with_exif_def with_quality_def
      upload_entry_def
      split: fetch_outcome.splits exif_outcome.splits sharp_outcome.splits option.splits)

theorem invalid_image_still_uploads_witness:
  "map_sum id (\<lambda>u. (exif u, quality u)) (fst (upload_handler ex_hash ex_store ex_req ex_env))
     = Inr (Some None, Some None) \<and>
   map (\<lambda>u. (id_u u, exif u, quality u)) (uploads (snd (upload_handler ex_hash ex_store ex_req ex_env)))
     = [(''u1'', Some None, Some None)]"
proof -
  note e = upload_handler_ok [OF ex_gate ex_file_present]
  show ?thesis
    using invalid_image_still_uploads [OF ex_gate ex_file_present]
    by (simp add: e ex_env_facts ex_uploads id_u_kept uploads_set_insp)
qed

section \<open>The automatic detection and the response\<close>

text \<open>
  C4, amended. The detection never fails the response: an upload that passes the token
  checks and carries a file is answered with its entry whatever the detector call does.
  The handler awaits the call before it answers, so the entry in the response is the
  entry after the call has settled, and it is the entry stored last. Its \<open>detection\<close>
  is set, with the predictions received, exactly when Roboflow is configured, a checklist
  item is declared and the call resolves with predictions; when the call is rejected or
  resolves without predictions the property stays missing. Every other property is as
  the two analyses left it.
\<close>

theorem detection_in_response:
  assumes "token_checks h s (r_id req) (r_query_t req) (r_x_token req) (now_check env) = Inr insp"
    and "r_file req = Some f"
  shows "\<exists>u. fst (upload_handler h s req env) = Inr u \<and>
     uploads (snd (upload_handler h s req env)) = uploads s @ [u] \<and>
     u\<lparr>detection := None\<rparr> = to_json (analyse env (upload_entry req env f)) \<and>
     detection u =
       (if roboflow_configured env \<and> truthy_str (b_checkItem (r_body req)) then
          (case fetch_out env of
             FetchRejected \<Rightarrow> None
           | FetchResolved None \<Rightarrow> None
           | FetchResolved (Some ps) \<Rightarrow>
               Some (AutoDetection \<lparr>timestamp_d = now_detect env, predictions = Some ps\<rparr>))
        else None)"
proof -
  let ?u0 = "analyse env (upload_entry req env f)"
  have d0: "detection ?u0 = None"
    by (simp add: analyse_fields upload_entry_def)
  have c0: "truthy_str (checkItem ?u0) = truthy_str (b_checkItem (r_body req))"
    by (simp add: analyse_fields upload_entry_def truthy_str_def)
  have k: "?u0\<lparr>detection := None\<rparr> = ?u0"
    using d0 by simp
  have a: "(to_json (auto_detect env ?u0))\<lparr>detection := None\<rparr> = to_json ?u0"
    by (simp only: to_json_fields(10) auto_detect_fields(6) k)
  have b: "detection (to_json (auto_detect env ?u0)) =
       (if roboflow_configured env \<and> truthy_str (b_checkItem (r_body req)) then
          (case fetch_out env of
             FetchRejected \<Rightarrow> None
           | FetchResolved None \<Rightarrow> None
           | FetchResolved (Some ps) \<Rightarrow>
               Some (AutoDetection \<lparr>timestamp_d = now_detect env, predictions = Some ps\<rparr>))
        else None)"
    using d0 c0
    by (simp add: to_json_fields auto_detect_def split: fetch_outcome.splits option.splits)
  show ?thesis
    using a b by (simp add: upload_handler_ok [OF assms] uploads_set_insp)
qed

text \<open>
  C4, as stated, fails: with Roboflow configured and a checklist item declared, the entry
  returned to the caller already carries the detection, so the response reflects step 9
  and was sent after it.
\<close>

theorem detection_in_response_counterexample:
  "map_sum id detection (fst (upload_handler ex_hash ex_store ex_req ex_env))
     = Inr (Some (AutoDetection \<lparr>timestamp_d = 60, predictions = Some [ex_prediction]\<rparr>))"
  by (simp add: upload_handler_ok [OF ex_gate ex_file_present] to_json_fields auto_detect_def
      analyse_fields upload_entry_def ex_env_facts ex_req_facts)

theorem detection_in_response_witness:
  "map_sum id detection (fst (upload_handler ex_hash ex_store ex_req
       (ex_env\<lparr>fetch_out := FetchRejected\<rparr>))) = Inr None \<and>
   map detection (uploads (snd (upload_handler ex_hash ex_store ex_req
       (ex_env\<lparr>fetch_out := FetchRejected\<rparr>)))) = [None] \<and>
   map detection (uploads (snd (upload_handler ex_hash ex_store ex_req ex_env)))
     = [Some (AutoDetection \<lparr>timestamp_d = 60, predictions = Some [ex_prediction]\<rparr>)]"
proof -
  have g: "token_checks ex_hash ex_store (r_id ex_req) (r_query_t ex_req) (r_x_token ex_req)
     (now_check (ex_env\<lparr>fetch_out := FetchRejected\<rparr>)) = Inr ex_insp"
    using ex_gate by simp
  show ?thesis
    using detection_in_response [OF ex_gate ex_file_present]
      detection_in_response [OF g ex_file_present]
    by (auto simp add: ex_env_facts ex_req_facts ex_uploads)
qed

section \<open>Declared coordinates\<close>

lemma upload_entry_coords:
  "lat (upload_entry req env f) = coerce_field (b_lat (r_body req))"
  "lng (upload_entry req env f) = coerce_field (b_lng (r_body req))"
  "accuracy (upload_entry req env f) = coerce_field (b_accuracy (r_body req))"
  by (simp_all add: upload_entry_def)

lemma notify_entry_coords:
  "lat (notify_entry req env) = coerce_json (n_lat req)"
  "lng (notify_entry req env) = coerce_json (n_lng req)"
  "accuracy (notify_entry req env) = coerce_json (n_accuracy req)"
  by (simp_all add: notify_entry_def)

lemma coerce_field_cases:
  "coerce_field v = (case v of None \<Rightarrow> None | Some t \<Rightarrow> if t = [] then None else Some (parseFloat t))"
  by (simp add: coerce_field_def truthy_text_def split: option.splits)

lemma json_num_cases:
  "json_num None = None"
  "json_num (Some x) = (case x of Finite q \<Rightarrow> Some (Finite q) | _ \<Rightarrow> None)"
  by (simp_all add: json_num_def split: jsnum.splits)

lemma small_no_overflow:
  assumes "q < 1024"
  shows "\<not> overflows q"
proof -
  have "(2::rat) ^ 1024 = 2 ^ 971 * 2 ^ 53" by (simp only: power_add [symmetric]) simp
  moreover have "(2::rat) ^ 970 \<le> 2 ^ 971" by (rule power_increasing) simp_all
  moreover have "(2::rat) ^ 971 * 2 \<le> 2 ^ 971 * 2 ^ 53"
    by (rule mult_left_mono) simp_all
  moreover have "(1024::rat) \<le> 2 ^ 971"
  proof -
    have "(2::rat) ^ 10 \<le> 2 ^ 971" by (rule power_increasing) simp_all
    then show ?thesis by simp
  qed
  ultimately have "(1024::rat) \<le> 2 ^ 1024 - 2 ^ 970" by linarith
  with assms show ?thesis unfolding overflows_def by linarith
qed

lemma parseFloat_examples:
  "parseFloat [] = NaN" "parseFloat (units ''abc'') = NaN"
  "parseFloat (160 # units ''12.5'') = Finite (25 / 2)"
  by (simp_all add: parseFloat_def units_def isStrWhiteSpace_def isDigit_def Let_def
      digits_val_def scale10_def exponent_of_def small_no_overflow)

lemma abc_not_empty: "units ''abc'' \<noteq> []"
  by (simp add: units_def)

lemma ex_notify_gate:
  "token_checks ex_hash ex_store (n_id ex_notify_req) (n_query_t ex_notify_req)
     (n_x_token ex_notify_req) (now_check_n ex_notify_env) = Inr ex_insp"
  by (simp add: token_checks_cases [OF find_ex_insp] ex_notify_req_def ex_notify_env_def
      ex_insp_def ex_hash_def or_str_def truthy_str_def)

lemma ex_notify_facts:
  "truthy_str (n_key ex_notify_req)" "truthy_str (n_filename ex_notify_req)"
  "n_lat ex_notify_req = Val []" "n_lng ex_notify_req = Null"
  "n_accuracy ex_notify_req = Undefined"
  by (simp_all add: ex_notify_req_def truthy_str_def)

text \<open>
  C10, as stated, fails. In the multipart upload the text \<^verbatim>\<open>abc\<close> sent as \<open>lat\<close> is
  coerced to \<^verbatim>\<open>NaN\<close>, but the entry goes to the caller and into the file through
  \<^verbatim>\<open>JSON.stringify\<close>: the Upload record holds null, as it does for the absent
  \<open>lng\<close> and the empty \<open>accuracy\<close> of the same request. And the notify request
  does not always succeed: a \<open>lat\<close> that cannot be converted to a string makes
  \<^verbatim>\<open>parseFloat\<close> throw, and the request is answered with status 500.
\<close>

theorem non_numeric_coordinate_counterexample:
  "coerce_field (b_lat (r_body ex_req)) = Some NaN \<and>
   map_sum id (\<lambda>u. (lat u, lng u, accuracy u))
     (fst (upload_handler ex_hash ex_store ex_req ex_env)) = Inr (None, None, None) \<and>
   map lat (uploads (snd (upload_handler ex_hash ex_store ex_req ex_env))) = [None] \<and>
   map_option (\<lambda>e. http_status e = Some 500)
     (case fst (notify_handler ex_hash ex_store (ex_notify_req\<lparr>n_lat := Unconvertible\<rparr>)
                  ex_notify_env) of Inl e \<Rightarrow> Some e | Inr u \<Rightarrow> None) = Some True"
proof -
  have a: "coerce_field (b_lat (r_body ex_req)) = Some NaN"
    by (simp add: ex_req_facts coerce_field_cases parseFloat_examples abc_not_empty)
  have b: "map_sum id (\<lambda>u. (lat u, lng u, accuracy u))
     (fst (upload_handler ex_hash ex_store ex_req ex_env)) = Inr (None, None, None)"
    unfolding upload_handler_ok [OF ex_gate ex_file_present]
    by (simp add: to_json_fields auto_detect_fields analyse_fields upload_entry_coords
        coerce_field_cases ex_req_facts parseFloat_examples json_num_cases abc_not_empty)
  have c: "map lat (uploads (snd (upload_handler ex_hash ex_store ex_req ex_env))) = [None]"
    unfolding upload_handler_ok [OF ex_gate ex_file_present]
    by (simp add: uploads_set_insp ex_uploads to_json_fields auto_detect_fields analyse_fields
        upload_entry_coords coerce_field_cases ex_req_facts parseFloat_examples json_num_cases
        abc_not_empty)
  have g: "token_checks ex_hash ex_store (n_id (ex_notify_req\<lparr>n_lat := Unconvertible\<rparr>))
     (n_query_t (ex_notify_req\<lparr>n_lat := Unconvertible\<rparr>))
     (n_x_token (ex_notify_req\<lparr>n_lat := Unconvertible\<rparr>)) (now_check_n ex_notify_env)
     = Inr ex_insp"
    using ex_notify_gate by simp
  have d: "fst (notify_handler ex_hash ex_store (ex_notify_req\<lparr>n_lat := Unconvertible\<rparr>)
       ex_notify_env) = Inl ServerError"
    using ex_notify_facts(1,2) g
    by (simp add: notify_handler_def coordinates_throw_def)
  show ?thesis
    by (simp only: a b c d) simp
qed

text \<open>
  C10, amended. Neither intake handler validates the declared coordinates. A multipart
  upload that passes the other checks succeeds with any text fields: a missing or empty
  \<open>lat\<close>, \<open>lng\<close> or \<open>accuracy\<close> is stored as null, and any other text \<open>t\<close> as
  \<^verbatim>\<open>parseFloat(t)\<close> written as JSON, which is the number when it is finite and null
  when it is \<^verbatim>\<open>NaN\<close> or an infinity. In the notify request a missing or null value
  is stored as null and every other value, the empty string included, as
  \<^verbatim>\<open>parseFloat\<close> of it written as JSON; the request succeeds unless one of the
  three values cannot be converted to a string, when it is answered with a server error
  and nothing is written.
\<close>

theorem coordinates_are_coerced_not_validated:
  "(token_checks h s (r_id req) (r_query_t req) (r_x_token req) (now_check env) = Inr insp \<and>
    r_file req = Some f \<longrightarrow>
      (\<exists>u. fst (upload_handler h s req env) = Inr u \<and>
           uploads (snd (upload_handler h s req env)) = uploads s @ [u] \<and>
           lat u = (case b_lat (r_body req) of
                      None \<Rightarrow> None
                    | Some t \<Rightarrow> if t = [] then None
                        else (case parseFloat t of Finite q \<Rightarrow> Some (Finite q) | _ \<Rightarrow> None)) \<and>
           lng u = (case b_lng (r_body req) of
                      None \<Rightarrow> None
                    | Some t \<Rightarrow> if t = [] then None
                        else (case parseFloat t of Finite q \<Rightarrow> Some (Finite q) | _ \<Rightarrow> None)) \<and>
           accuracy u = (case b_accuracy (r_body req) of
                      None \<Rightarrow> None
                    | Some t \<Rightarrow> if t = [] then None
                        else (case parseFloat t of Finite q \<Rightarrow> Some (Finite q) | _ \<Rightarrow> None))) \<and>
      (\<exists>u'. fst (upload_handler h s (req\<lparr>r_body := b'\<rparr>) env) = Inr u')) \<and>
   (truthy_str (n_key nreq) \<and> truthy_str (n_filename nreq) \<and>
    token_checks h s (n_id nreq) (n_query_t nreq) (n_x_token nreq) (now_check_n nenv) = Inr insp'
    \<longrightarrow>
      (if n_lat nreq = Unconvertible \<or> n_lng nreq = Unconvertible \<or>
          n_accuracy nreq = Unconvertible
       then notify_handler h s nreq nenv = (Inl ServerError, s)
       else
         (\<exists>u. fst (notify_handler h s nreq nenv) = Inr u \<and>
              uploads (snd (notify_handler h s nreq nenv)) = uploads s @ [u] \<and>
              lat u = (case n_lat nreq of
                         Val t \<Rightarrow> (case parseFloat t of Finite q \<Rightarrow> Some (Finite q) | _ \<Rightarrow> None)
                       | _ \<Rightarrow> None) \<and>
              lng u = (case n_lng nreq of
                         Val t \<Rightarrow> (case parseFloat t of Finite q \<Rightarrow> Some (Finite q) | _ \<Rightarrow> None)
                       | _ \<Rightarrow> None) \<and>
              accuracy u = (case n_accuracy nreq of
                         Val t \<Rightarrow> (case parseFloat t of Finite q \<Rightarrow> Some (Finite q) | _ \<Rightarrow> None)
                       | _ \<Rightarrow> None))))"
proof -
  have up: "\<exists>u. fst (upload_handler h s req env) = Inr u \<and>
           uploads (snd (upload_handler h s req env)) = uploads s @ [u] \<and>
           lat u = (case b_lat (r_body req) of
                      None \<Rightarrow> None
                    | Some t \<Rightarrow> if t = [] then None
                        else (case parseFloat t of Finite q \<Rightarrow> Some (Finite q) | _ \<Rightarrow> None)) \<and>
           lng u = (case b_lng (r_body req) of
                      None \<Rightarrow> None
                    | Some t \<Rightarrow> if t = [] then None
                        else (case parseFloat t of Finite q \<Rightarrow> Some (Finite q) | _ \<Rightarrow> None)) \<and>
           accuracy u = (case b_accuracy (r_body req) of
                      None \<Rightarrow> None
                    | Some t \<Rightarrow> if t = [] then None
                        else (case parseFloat t of Finite q \<Rightarrow> Some (Finite q) | _ \<Rightarrow> None))"
    if g: "token_checks h s (r_id req) (r_query_t req) (r_x_token req) (now_check env) = Inr insp"
      and f: "r_file req = Some f"
    unfolding upload_handler_ok [OF g f]
    by (simp add: uploads_set_insp to_json_fields auto_detect_fields analyse_fields
        upload_entry_coords coerce_field_cases json_num_cases split: option.splits)
  have up': "\<exists>u'. fst (upload_handler h s (req\<lparr>r_body := b'\<rparr>) env) = Inr u'"
    if g: "token_checks h s (r_id req) (r_query_t req) (r_x_token req) (now_check env) = Inr insp"
      and f: "r_file req = Some f"
  proof -
    have g': "token_checks h s (r_id (req\<lparr>r_body := b'\<rparr>)) (r_query_t (req\<lparr>r_body := b'\<rparr>))
        (r_x_token (req\<lparr>r_body := b'\<rparr>)) (now_check env) = Inr insp"
      using g by simp
    have f': "r_file (req\<lparr>r_body := b'\<rparr>) = Some f" using f by simp
    show ?thesis by (simp add: upload_handler_ok [OF g' f'])
  qed
  have no: "\<exists>u. fst (notify_handler h s nreq nenv) = Inr u \<and>
              uploads (snd (notify_handler h s nreq nenv)) = uploads s @ [u] \<and>
              lat u = (case n_lat nreq of
                         Val t \<Rightarrow> (case parseFloat t of Finite q \<Rightarrow> Some (Finite q) | _ \<Rightarrow> None)
                       | _ \<Rightarrow> None) \<and>
              lng u = (case n_lng nreq of
                         Val t \<Rightarrow> (case parseFloat t of Finite q \<Rightarrow> Some (Finite q) | _ \<Rightarrow> None)
                       | _ \<Rightarrow> None) \<and>
              accuracy u = (case n_accuracy nreq of
                         Val t \<Rightarrow> (case parseFloat t of Finite q \<Rightarrow> Some (Finite q) | _ \<Rightarrow> None)
                       | _ \<Rightarrow> None)"
    if k: "truthy_str (n_key nreq)" "truthy_str (n_filename nreq)"
      and g: "token_checks h s (n_id nreq) (n_query_t nreq) (n_x_token nreq) (now_check_n nenv)
                = Inr insp'"
      and c: "\<not> coordinates_throw nreq"
    unfolding notify_handler_ok [OF k g c]
    by (simp add: uploads_set_insp to_json_fields notify_entry_coords coerce_json_def
        json_num_cases split: jsfield.splits)
  have no': "notify_handler h s nreq nenv = (Inl ServerError, s)"
    if k: "truthy_str (n_key nreq)" "truthy_str (n_filename nreq)"
      and g: "token_checks h s (n_id nreq) (n_query_t nreq) (n_x_token nreq) (now_check_n nenv)
                = Inr insp'"
      and c: "coordinates_throw nreq"
    using k g c by (simp add: notify_handler_def)
  show ?thesis
    using up up' no no' unfolding coordinates_throw_def by (simp only: if_split) blast
qed

theorem coordinates_are_coerced_not_validated_witness:
  "map_sum id (\<lambda>u. (lat u, lng u, accuracy u))
     (fst (upload_handler ex_hash ex_store ex_req ex_env)) = Inr (None, None, None) \<and>
   map_sum id (\<lambda>u. (lat u, lng u, accuracy u))
     (fst (notify_handler ex_hash ex_store
            (ex_notify_req\<lparr>n_accuracy := Val (160 # units ''12.5'')\<rparr>) ex_notify_env))
     = Inr (None, None, Some (Finite (25 / 2))) \<and>
   notify_handler ex_hash ex_store (ex_notify_req\<lparr>n_lng := Unconvertible\<rparr>) ex_notify_env
     = (Inl ServerError, ex_store)"
proof -
  note p = parseFloat_examples(2) abc_not_empty
  note t1 = coordinates_are_coerced_not_validated [where h = ex_hash and s = ex_store
      and req = ex_req and env = ex_env and insp = ex_insp and f = ex_file
      and nreq = "ex_notify_req\<lparr>n_accuracy := Val (160 # units ''12.5'')\<rparr>"
      and nenv = ex_notify_env and insp' = ex_insp and b' = "r_body ex_req"]
  note t2 = coordinates_are_coerced_not_validated [where h = ex_hash and s = ex_store
      and req = ex_req and env = ex_env and insp = ex_insp and f = ex_file
      and nreq = "ex_notify_req\<lparr>n_lng := Unconvertible\<rparr>"
      and nenv = ex_notify_env and insp' = ex_insp and b' = "r_body ex_req"]
  show ?thesis
    using t1 t2
    by (auto simp add: ex_gate ex_file_present ex_notify_gate ex_notify_facts ex_req_facts p
        parseFloat_examples)
qed

section \<open>The transition to submitted\<close>

lemma id_submit: "id_i (submit_if_pending i) = id_i i"
  by (simp add: submit_if_pending_def)

lemma find_insp_submit:
  "find_insp (set_insp rid submit_if_pending s) rid = map_option submit_if_pending (find_insp s rid)"
  by (simp add: find_insp_def set_insp_def find_update_first id_submit)

lemma find_insp_uploads: "find_insp (s\<lparr>uploads := us\<rparr>) rid = find_insp s rid"
  by (simp add: find_insp_def)

lemma length_update_first: "length (update_first P f xs) = length xs"
  by (induction xs) auto

lemma update_first_fixed:
  assumes "find P xs = Some x" and "f x = x"
  shows "update_first P f xs = xs"
  using assms by (induction xs) (auto split: if_splits)

lemma update_first_submit_nth:
  assumes "k < length xs"
  shows "update_first P submit_if_pending xs ! k = xs ! k \<or>
     (P (xs ! k) \<and> status (xs ! k) = ''pending'' \<and>
      update_first P submit_if_pending xs ! k = (xs ! k)\<lparr>status := ''submitted''\<rparr>)"
  using assms
proof (induction xs arbitrary: k)
  case Nil
  then show ?case by simp
next
  case (Cons x xs)
  show ?case
  proof (cases k)
    case 0
    then show ?thesis by (simp add: submit_if_pending_def)
  next
    case (Suc j)
    with Cons show ?thesis by auto
  qed
qed

text \<open>What appending an upload and then submitting does to the inspections.\<close>

lemma intake_effect:
  assumes "find_insp s rid = Some insp"
  shows
    "(status insp = ''pending'' \<longrightarrow>
        find_insp (set_insp rid submit_if_pending (s\<lparr>uploads := us\<rparr>)) rid
          = Some (insp\<lparr>status := ''submitted''\<rparr>)) \<and>
     (status insp \<noteq> ''pending'' \<longrightarrow>
        inspections (set_insp rid submit_if_pending (s\<lparr>uploads := us\<rparr>)) = inspections s) \<and>
     length (inspections (set_insp rid submit_if_pending (s\<lparr>uploads := us\<rparr>)))
        = length (inspections s) \<and>
     (\<forall>k < length (inspections s).
        inspections (set_insp rid submit_if_pending (s\<lparr>uploads := us\<rparr>)) ! k = inspections s ! k \<or>
        (id_i (inspections s ! k) = rid \<and> status (inspections s ! k) = ''pending'' \<and>
         inspections (set_insp rid submit_if_pending (s\<lparr>uploads := us\<rparr>)) ! k
           = (inspections s ! k)\<lparr>status := ''submitted''\<rparr>))"
proof -
  have a: "find_insp (set_insp rid submit_if_pending (s\<lparr>uploads := us\<rparr>)) rid
      = Some (submit_if_pending insp)"
    by (simp add: find_insp_submit find_insp_uploads assms)
  have b: "status insp \<noteq> ''pending'' \<Longrightarrow>
      inspections (set_insp rid submit_if_pending (s\<lparr>uploads := us\<rparr>)) = inspections s"
    using assms
    by (simp add: set_insp_def find_insp_def update_first_fixed submit_if_pending_def)
  have c: "length (inspections (set_insp rid submit_if_pending (s\<lparr>uploads := us\<rparr>)))
        = length (inspections s)"
    by (simp add: set_insp_def length_update_first)
  have d: "\<forall>k < length (inspections s).
        inspections (set_insp rid submit_if_pending (s\<lparr>uploads := us\<rparr>)) ! k = inspections s ! k \<or>
        (id_i (inspections s ! k) = rid \<and> status (inspections s ! k) = ''pending'' \<and>
         inspections (set_insp rid submit_if_pending (s\<lparr>uploads := us\<rparr>)) ! k
           = (inspections s ! k)\<lparr>status := ''submitted''\<rparr>)"
    using update_first_submit_nth [of _ "inspections s" "\<lambda>x. id_i x = rid"]
    by (simp add: set_insp_def)
  from a b c d show ?thesis by (simp add: submit_if_pending_def)
qed

lemma upload_submits:
  assumes "find_insp s (r_id req) = Some insp"
  shows
    "(\<forall>u. fst (upload_handler h s req env) = Inr u \<longrightarrow>
        (status insp = ''pending'' \<longrightarrow>
           find_insp (snd (upload_handler h s req env)) (r_id req)
             = Some (insp\<lparr>status := ''submitted''\<rparr>)) \<and>
        (status insp \<noteq> ''pending'' \<longrightarrow>
           inspections (snd (upload_handler h s req env)) = inspections s) \<and>
        length (inspections (snd (upload_handler h s req env))) = length (inspections s) \<and>
        (\<forall>k < length (inspections s).
           inspections (snd (upload_handler h s req env)) ! k = inspections s ! k \<or>
           (id_i (inspections s ! k) = r_id req \<and> status (inspections s ! k) = ''pending'' \<and>
            inspections (snd (upload_handler h s req env)) ! k
              = (inspections s ! k)\<lparr>status := ''submitted''\<rparr>)) \<and>
        (\<forall>req2 env2 u2. r_id req2 = r_id req \<and> status insp = ''pending'' \<and>
           fst (upload_handler h (snd (upload_handler h s req env)) req2 env2) = Inr u2 \<longrightarrow>
           inspections (snd (upload_handler h (snd (upload_handler h s req env)) req2 env2))
             = inspections (snd (upload_handler h s req env)) \<and>
           map_option status
             (find_insp (snd (upload_handler h (snd (upload_handler h s req env)) req2 env2))
                (r_id req)) = Some ''submitted'')) \<and>
     (\<forall>e. fst (upload_handler h s req env) = Inl e \<longrightarrow> snd (upload_handler h s req env) = s)"
proof -
  have ok: "?thesis" if u: "fst (upload_handler h s req env) = Inr u" for u
  proof -
    from upload_handler_Inr [OF u] obtain i f where
      g: "token_checks h s (r_id req) (r_query_t req) (r_x_token req) (now_check env) = Inr i"
      and f: "r_file req = Some f" by blast
    let ?U = "to_json (auto_detect env (analyse env (upload_entry req env f)))"
    let ?s' = "set_insp (r_id req) submit_if_pending (s\<lparr>uploads := uploads s @ [?U]\<rparr>)"
    have s': "snd (upload_handler h s req env) = ?s'"
      by (simp add: upload_handler_ok [OF g f])
    note eff = intake_effect [OF assms, of "uploads s @ [?U]"]
    have second: "inspections (snd (upload_handler h ?s' req2 env2)) = inspections ?s' \<and>
        map_option status (find_insp (snd (upload_handler h ?s' req2 env2)) (r_id req))
          = Some ''submitted''"
      if r2: "r_id req2 = r_id req" and p: "status insp = ''pending''"
        and u2: "fst (upload_handler h ?s' req2 env2) = Inr u2" for req2 env2 u2
    proof -
      from eff p have fi: "find_insp ?s' (r_id req2) = Some (insp\<lparr>status := ''submitted''\<rparr>)"
        by (simp add: r2)
      from upload_handler_Inr [OF u2] obtain i2 f2 where
        g2: "token_checks h ?s' (r_id req2) (r_query_t req2) (r_x_token req2) (now_check env2) = Inr i2"
        and f2: "r_file req2 = Some f2" by blast
      let ?U2 = "to_json (auto_detect env2 (analyse env2 (upload_entry req2 env2 f2)))"
      have s2: "snd (upload_handler h ?s' req2 env2)
          = set_insp (r_id req2) submit_if_pending (?s'\<lparr>uploads := uploads ?s' @ [?U2]\<rparr>)"
        by (simp add: upload_handler_ok [OF g2 f2])
      note eff2 = intake_effect [OF fi, of "uploads ?s' @ [?U2]"]
      from eff2 have same: "inspections (snd (upload_handler h ?s' req2 env2)) = inspections ?s'"
        by (simp add: s2)
      have "find_insp (snd (upload_handler h ?s' req2 env2)) (r_id req)
          = find_insp ?s' (r_id req)"
        using same by (simp add: find_insp_def)
      with fi same show ?thesis by (simp add: r2)
    qed
    have noerr: "fst (upload_handler h s req env) \<noteq> Inl e" for e
      using u by simp
    show ?thesis
      using eff second noerr u unfolding s' by blast
  qed
  have err: "?thesis" if e: "fst (upload_handler h s req env) = Inl e" for e
    using e upload_handler_Inl [OF e] by simp
  show ?thesis
  proof (cases "fst (upload_handler h s req env)")
    case (Inl e)
    then show ?thesis by (rule err)
  next
    case (Inr u)
    then show ?thesis by (rule ok)
  qed
qed


lemma notify_submits:
  assumes "find_insp s (n_id nreq) = Some ninsp"
  shows
    "(\<forall>u. fst (notify_handler h s nreq nenv) = Inr u \<longrightarrow>
        (status ninsp = ''pending'' \<longrightarrow>
           find_insp (snd (notify_handler h s nreq nenv)) (n_id nreq)
             = Some (ninsp\<lparr>status := ''submitted''\<rparr>)) \<and>
        (status ninsp \<noteq> ''pending'' \<longrightarrow>
           inspections (snd (notify_handler h s nreq nenv)) = inspections s) \<and>
        length (inspections (snd (notify_handler h s nreq nenv))) = length (inspections s) \<and>
        (\<forall>k < length (inspections s).
           inspections (snd (notify_handler h s nreq nenv)) ! k = inspections s ! k \<or>
           (id_i (inspections s ! k) = n_id nreq \<and> status (inspections s ! k) = ''pending'' \<and>
            inspections (snd (notify_handler h s nreq nenv)) ! k
              = (inspections s ! k)\<lparr>status := ''submitted''\<rparr>))) \<and>
     (\<forall>e. fst (notify_handler h s nreq nenv) = Inl e \<longrightarrow> snd (notify_handler h s nreq nenv) = s)"
proof (cases "fst (notify_handler h s nreq nenv)")
  case (Inl e)
  then show ?thesis using notify_handler_Inl [OF Inl] by simp
next
  case (Inr u)
  from notify_handler_Inr [OF Inr] obtain i where
    k: "truthy_str (n_key nreq)" "truthy_str (n_filename nreq)"
    and c: "\<not> coordinates_throw nreq"
    and g: "token_checks h s (n_id nreq) (n_query_t nreq) (n_x_token nreq) (now_check_n nenv) = Inr i"
    by blast
  have s': "snd (notify_handler h s nreq nenv)
      = set_insp (n_id nreq) submit_if_pending
          (s\<lparr>uploads := uploads s @ [to_json (notify_entry nreq nenv)]\<rparr>)"
    by (simp add: notify_handler_ok [OF k g c])
  show ?thesis
    using intake_effect [OF assms, of "uploads s @ [to_json (notify_entry nreq nenv)]"] Inr
    unfolding s' by simp
qed

text \<open>
  C7. A successful upload (and likewise a successful notify) to an inspection whose status
  is pending leaves it with status submitted; to an inspection with any other status it
  leaves the inspections as they were. No other inspection changes: each element of the
  list is as before, or is the requested inspection going from pending to submitted. A
  second successful upload to the same inspection changes no inspection, and the status
  stays submitted. A rejected request leaves the document as it was.
\<close>

theorem first_upload_submits:
  assumes "find_insp s (r_id req) = Some insp" and "find_insp s (n_id nreq) = Some ninsp"
  shows
    "((\<forall>u. fst (upload_handler h s req env) = Inr u \<longrightarrow>
        (status insp = ''pending'' \<longrightarrow>
           find_insp (snd (upload_handler h s req env)) (r_id req)
             = Some (insp\<lparr>status := ''submitted''\<rparr>)) \<and>
        (status insp \<noteq> ''pending'' \<longrightarrow>
           inspections (snd (upload_handler h s req env)) = inspections s) \<and>
        length (inspections (snd (upload_handler h s req env))) = length (inspections s) \<and>
        (\<forall>k < length (inspections s).
           inspections (snd (upload_handler h s req env)) ! k = inspections s ! k \<or>
           (id_i (inspections s ! k) = r_id req \<and> status (inspections s ! k) = ''pending'' \<and>
            inspections (snd (upload_handler h s req env)) ! k
              = (inspections s ! k)\<lparr>status := ''submitted''\<rparr>)) \<and>
        (\<forall>req2 env2 u2. r_id req2 = r_id req \<and> status insp = ''pending'' \<and>
           fst (upload_handler h (snd (upload_handler h s req env)) req2 env2) = Inr u2 \<longrightarrow>
           inspections (snd (upload_handler h (snd (upload_handler h s req env)) req2 env2))
             = inspections (snd (upload_handler h s req env)) \<and>
           map_option status
             (find_insp (snd (upload_handler h (snd (upload_handler h s req env)) req2 env2))
                (r_id req)) = Some ''submitted'')) \<and>
      (\<forall>e. fst (upload_handler h s req env) = Inl e \<longrightarrow> snd (upload_handler h s req env) = s)) \<and>
     ((\<forall>u. fst (notify_handler h s nreq nenv) = Inr u \<longrightarrow>
        (status ninsp = ''pending'' \<longrightarrow>
           find_insp (snd (notify_handler h s nreq nenv)) (n_id nreq)
             = Some (ninsp\<lparr>status := ''submitted''\<rparr>)) \<and>
        (status ninsp \<noteq> ''pending'' \<longrightarrow>
           inspections (snd (notify_handler h s nreq nenv)) = inspections s) \<and>
        length (inspections (snd (notify_handler h s nreq nenv))) = length (inspections s) \<and>
        (\<forall>k < length (inspections s).
           inspections (snd (notify_handler h s nreq nenv)) ! k = inspections s ! k \<or>
           (id_i (inspections s ! k) = n_id nreq \<and> status (inspections s ! k) = ''pending'' \<and>
            inspections (snd (notify_handler h s nreq nenv)) ! k
              = (inspections s ! k)\<lparr>status := ''submitted''\<rparr>))) \<and>
      (\<forall>e. fst (notify_handler h s nreq nenv) = Inl e \<longrightarrow> snd (notify_handler h s nreq nenv) = s))"
  using upload_submits [OF assms(1), of h env] notify_submits [OF assms(2), of h nenv]
  by (rule conjI)

lemma ex_pending: "status ex_insp = ''pending''"
  by (simp add: ex_insp_def)

lemma ex_second_gate:
  assumes "find_insp s' ''i1'' = Some (ex_insp\<lparr>status := ''submitted''\<rparr>)"
  shows "token_checks ex_hash s' (r_id ex_req) (r_query_t ex_req) (r_x_token ex_req)
     (now_check (ex_env\<lparr>new_id := ''u9''\<rparr>)) = Inr (ex_insp\<lparr>status := ''submitted''\<rparr>)"
proof -
  have i: "r_id ex_req = ''i1''" by (simp add: ex_req_def)
  show ?thesis
    unfolding i
    by (simp add: token_checks_cases [OF assms] ex_req_def ex_env_def ex_insp_def
        ex_hash_def or_str_def truthy_str_def)
qed

theorem first_upload_submits_witness:
  "find_insp (snd (upload_handler ex_hash ex_store ex_req ex_env)) ''i1''
     = Some (ex_insp\<lparr>status := ''submitted''\<rparr>) \<and>
   map_option status
     (find_insp (snd (upload_handler ex_hash (snd (upload_handler ex_hash ex_store ex_req ex_env))
        ex_req (ex_env\<lparr>new_id := ''u9''\<rparr>))) ''i1'') = Some ''submitted'' \<and>
   find_insp (snd (notify_handler ex_hash ex_store ex_notify_req ex_notify_env)) ''i1''
     = Some (ex_insp\<lparr>status := ''submitted''\<rparr>)"
proof -
  have i: "r_id ex_req = ''i1''" "n_id ex_notify_req = ''i1''"
    by (simp_all add: ex_req_def ex_notify_req_def)
  have f: "find_insp ex_store (r_id ex_req) = Some ex_insp"
    "find_insp ex_store (n_id ex_notify_req) = Some ex_insp"
    by (simp_all add: i find_ex_insp)
  note t = first_upload_submits [OF f, of ex_hash ex_env ex_notify_env]
  have u1: "fst (upload_handler ex_hash ex_store ex_req ex_env)
      = Inr (to_json (auto_detect ex_env (analyse ex_env (upload_entry ex_req ex_env ex_file))))"
    by (simp add: upload_handler_ok [OF ex_gate ex_file_present])
  have nt: "\<not> coordinates_throw ex_notify_req"
    by (simp add: coordinates_throw_def ex_notify_facts)
  have n1: "fst (notify_handler ex_hash ex_store ex_notify_req ex_notify_env)
      = Inr (to_json (notify_entry ex_notify_req ex_notify_env))"
    by (simp add: notify_handler_ok [OF ex_notify_facts(1,2) ex_notify_gate nt])
  from t u1 ex_pending have a:
    "find_insp (snd (upload_handler ex_hash ex_store ex_req ex_env)) ''i1''
       = Some (ex_insp\<lparr>status := ''submitted''\<rparr>)"
    by (simp add: i)
  from t n1 ex_pending have c:
    "find_insp (snd (notify_handler ex_hash ex_store ex_notify_req ex_notify_env)) ''i1''
       = Some (ex_insp\<lparr>status := ''submitted''\<rparr>)"
    by (simp add: i)
  have u2: "fst (upload_handler ex_hash (snd (upload_handler ex_hash ex_store ex_req ex_env))
        ex_req (ex_env\<lparr>new_id := ''u9''\<rparr>))
      = Inr (to_json (auto_detect (ex_env\<lparr>new_id := ''u9''\<rparr>)
              (analyse (ex_env\<lparr>new_id := ''u9''\<rparr>)
                 (upload_entry ex_req (ex_env\<lparr>new_id := ''u9''\<rparr>) ex_file))))"
    by (simp add: upload_handler_ok [OF ex_second_gate [OF a] ex_file_present])
  from t u1 u2 ex_pending have b:
    "map_option status
     (find_insp (snd (upload_handler ex_hash (snd (upload_handler ex_hash ex_store ex_req ex_env))
        ex_req (ex_env\<lparr>new_id := ''u9''\<rparr>))) ''i1'') = Some ''submitted''"
    by (simp add: i)
  from a b c show ?thesis by simp
qed

section \<open>The status values\<close>

lemma update_first_nth:
  assumes "k < length xs"
  shows "update_first P f xs ! k = xs ! k \<or> (P (xs ! k) \<and> update_first P f xs ! k = f (xs ! k))"
  using assms
proof (induction xs arbitrary: k)
  case Nil
  then show ?case by simp
next
  case (Cons x xs)
  show ?case
  proof (cases k)
    case 0
    then show ?thesis by simp
  next
    case (Suc j)
    with Cons show ?thesis by auto
  qed
qed

lemma set_insp_statuses_ok:
  assumes "statuses_ok s"
    and "\<And>i. status i \<in> set status_values \<Longrightarrow> status (f i) \<in> set status_values"
  shows "statuses_ok (set_insp rid f s)"
proof -
  have "status x \<in> set status_values"
    if "x \<in> set (update_first (\<lambda>x. id_i x = rid) f (inspections s))" for x
  proof -
    from that obtain k where k: "k < length (inspections s)"
      and x: "x = update_first (\<lambda>x. id_i x = rid) f (inspections s) ! k"
      by (auto simp add: in_set_conv_nth length_update_first)
    from assms(1) k have o: "status (inspections s ! k) \<in> set status_values"
      by (simp add: statuses_ok_def list_all_iff)
    from update_first_nth [OF k, of "\<lambda>x. id_i x = rid" f] o assms(2) show ?thesis
      unfolding x by auto
  qed
  then show ?thesis by (simp add: statuses_ok_def list_all_iff set_insp_def)
qed

lemma set_insp_length: "length (inspections (set_insp rid f s)) = length (inspections s)"
  by (simp add: set_insp_def length_update_first)

lemma set_insp_completed:
  assumes "\<And>i. status (f i) = ''completed'' \<Longrightarrow> status i = ''completed''"
    and "k < length (inspections s)"
    and "status (inspections (set_insp rid f s) ! k) = ''completed''"
  shows "status (inspections s ! k) = ''completed''"
  using update_first_nth [OF assms(2), of "\<lambda>x. id_i x = rid" f] assms(1,3)
  by (auto simp add: set_insp_def)

lemma statuses_ok_uploads: "statuses_ok (s\<lparr>uploads := us\<rparr>) = statuses_ok s"
  by (simp add: statuses_ok_def)

lemma statuses_ok_vinRecords: "statuses_ok (s\<lparr>vinRecords := vs\<rparr>) = statuses_ok s"
  by (simp add: statuses_ok_def)

lemma submit_status_ok:
  "status i \<in> set status_values \<Longrightarrow> status (submit_if_pending i) \<in> set status_values"
  by (auto simp add: submit_if_pending_def status_values_def)

lemma submit_completed:
  "status (submit_if_pending i) = ''completed'' \<Longrightarrow> status i = ''completed''"
  by (simp add: submit_if_pending_def split: if_splits)

lemma keeps_refl: "keeps_inspections s s"
  by (simp add: keeps_inspections_def)

lemma keeps_set_insp:
  assumes "\<And>i. status i \<in> set status_values \<Longrightarrow> status (f i) \<in> set status_values"
    and "\<And>i. status (f i) = ''completed'' \<Longrightarrow> status i = ''completed''"
    and "inspections s1 = inspections s"
  shows "keeps_inspections s (set_insp rid f s1)"
proof -
  have a: "statuses_ok s1 = statuses_ok s" using assms(3) by (simp add: statuses_ok_def)
  have b: "status (inspections s ! k) = ''completed''"
    if "k < length (inspections s)" "status (inspections (set_insp rid f s1) ! k) = ''completed''"
    for k
    using set_insp_completed [of f k s1 rid] assms(2,3) that by simp
  show ?thesis
    using set_insp_statuses_ok [of s1 f rid] assms(1) a b
    by (simp add: keeps_inspections_def set_insp_length assms(3))
qed

lemma keeps_upload: "keeps_inspections s (snd (upload_handler h s req env))"
  by (auto simp add: upload_handler_def Let_def keeps_refl submit_status_ok submit_completed
      intro!: keeps_set_insp split: sum.splits option.splits)

lemma keeps_notify: "keeps_inspections s (snd (notify_handler h s req env))"
  by (auto simp add: notify_handler_def Let_def keeps_refl submit_status_ok submit_completed
      intro!: keeps_set_insp split: sum.splits option.splits)

lemma keeps_post_update: "keeps_inspections s (snd (post_update s rid b now))"
  by (auto simp add: post_update_def keeps_refl intro!: keeps_set_insp split: option.splits)

lemma keeps_put_update:
  "p_status b = None \<Longrightarrow> keeps_inspections s (snd (put_update s rid b now))"
  by (auto simp add: put_update_def assign_def keeps_refl intro!: keeps_set_insp
      split: option.splits)

lemma keeps_fraud_score: "keeps_inspections s (snd (fraud_score s rid now))"
  by (auto simp add: fraud_score_def Let_def keeps_refl intro!: keeps_set_insp
      split: option.splits)

lemma keeps_generate:
  "keeps_inspections s (snd (generate_ai_report s rid configured md now))"
  by (auto simp add: generate_ai_report_def keeps_refl intro!: keeps_set_insp
      split: option.splits)

lemma keeps_save_vin: "keeps_inspections s (snd (save_vin_record s v ts nid now))"
  by (simp add: save_vin_record_def Let_def keeps_inspections_def statuses_ok_def)

lemma keeps_trans:
  assumes "keeps_inspections s s1" and "keeps_inspections s1 s2"
  shows "keeps_inspections s s2"
  using assms by (simp add: keeps_inspections_def)

lemma keeps_same:
  assumes "inspections s' = inspections s"
  shows "keeps_inspections s s'"
  using assms by (simp add: keeps_inspections_def statuses_ok_def)

lemma keeps_tire: "keeps_inspections s (snd (tire_handler s rid payload now))"
  by (auto simp add: tire_handler_def keeps_refl intro!: keeps_set_insp split: option.splits)

lemma keeps_generate_pdf: "keeps_inspections s (snd (generate_pdf s rid puppeteer pdf_ok now))"
  by (auto simp add: generate_pdf_def keeps_refl intro!: keeps_set_insp split: option.splits)

lemma keeps_email_report: "keeps_inspections s (snd (email_report s rid to env))"
  by (auto simp add: email_report_def Let_def keeps_refl intro!: keeps_set_insp
      split: option.splits)

lemma keeps_report: "keeps_inspections s (set_insp rid (\<lambda>i. i\<lparr>report := g i\<rparr>) s)"
  by (rule keeps_set_insp) simp_all

lemma keeps_worker_job: "keeps_inspections s (worker_job s rid to env)"
proof (cases "find_insp s rid")
  case None
  then show ?thesis by (simp add: worker_job_def keeps_refl)
next
  case (Some insp)
  have two: "keeps_inspections s
      (set_insp rid (\<lambda>i. i\<lparr>report := g2 i\<rparr>) (set_insp rid (\<lambda>i. i\<lparr>report := g1 i\<rparr>) s))"
    for g1 g2
    by (rule keeps_trans [OF keeps_report keeps_report])
  show ?thesis
    using Some
    by (simp add: worker_job_def Let_def keeps_refl keeps_report two split: option.splits)
qed

lemma keeps_roboflow_detect: "keeps_inspections s (snd (roboflow_detect s req env))"
  by (rule keeps_same) (simp add: roboflow_detect_def Let_def split: fetch_outcome.splits)

lemma keeps_chat: "keeps_inspections s (snd (chat_handler s rid msg env))"
proof -
  have c: "keeps_inspections s
      (set_insp rid (\<lambda>i. i\<lparr>chatHistory := g i\<rparr>) s)" for g
    by (rule keeps_set_insp) simp_all
  show ?thesis
    by (simp add: chat_handler_def Let_def keeps_refl keeps_fraud_score c split: option.splits)
qed

lemma update_first_nth_found:
  assumes "k < length xs"
  shows "update_first P f xs ! k = xs ! k \<or>
     (find P xs = Some (xs ! k) \<and> update_first P f xs ! k = f (xs ! k))"
  using assms
proof (induction xs arbitrary: k)
  case Nil
  then show ?case by simp
next
  case (Cons x xs)
  show ?case
  proof (cases k)
    case 0
    then show ?thesis by simp
  next
    case (Suc j)
    with Cons show ?thesis by auto
  qed
qed

lemma approve_effect:
  "(statuses_ok s \<longrightarrow> statuses_ok (snd (approve_report s rid who now))) \<and>
   length (inspections (snd (approve_report s rid who now))) = length (inspections s)"
  by (auto simp add: approve_report_def set_insp_length status_values_def
      intro!: set_insp_statuses_ok split: option.splits)

text \<open>An inspection completed by the approval is the one found, and it had a report.\<close>

lemma approve_completed:
  assumes "k < length (inspections s)"
    and "status (inspections (snd (approve_report s rid who now)) ! k) = ''completed''"
  shows "status (inspections s ! k) = ''completed'' \<or>
     (find_insp s rid = Some (inspections s ! k) \<and> aiReport (inspections s ! k) \<noteq> None)"
proof (cases "find_insp s rid")
  case None
  with assms(2) show ?thesis by (simp add: approve_report_def)
next
  case (Some insp)
  show ?thesis
  proof (cases "aiReport insp")
    case None
    with Some assms(2) show ?thesis by (simp add: approve_report_def)
  next
    case (Some rep)
    note r = this
    let ?f = "\<lambda>i. i\<lparr>aiReport := Some (rep\<lparr>reviewed := True, reviewedAt := Some now,
                                          reviewedBy := Some (if truthy_str who then the who
                                                              else ''admin'')\<rparr>),
                      status := ''completed''\<rparr>"
    have e: "inspections (snd (approve_report s rid who now))
        = update_first (\<lambda>x. id_i x = rid) ?f (inspections s)"
      using \<open>find_insp s rid = Some insp\<close> r by (simp add: approve_report_def set_insp_def)
    from update_first_nth_found [OF assms(1), of "\<lambda>x. id_i x = rid" ?f]
    show ?thesis
    proof
      assume "update_first (\<lambda>x. id_i x = rid) ?f (inspections s) ! k = inspections s ! k"
      with assms(2) e show ?thesis by simp
    next
      assume "find (\<lambda>x. id_i x = rid) (inspections s) = Some (inspections s ! k) \<and>
        update_first (\<lambda>x. id_i x = rid) ?f (inspections s) ! k = ?f (inspections s ! k)"
      with \<open>find_insp s rid = Some insp\<close> r show ?thesis
        by (auto simp add: find_insp_def)
    qed
  qed
qed

text \<open>The approval leaves every other inspection as it was.\<close>

lemma approve_others:
  assumes "k < length (inspections s)"
  shows "inspections (snd (approve_report s rid who now)) ! k = inspections s ! k \<or>
     find_insp s rid = Some (inspections s ! k)"
  using update_first_nth_found [OF assms, of "\<lambda>x. id_i x = rid"]
  by (auto simp add: approve_report_def set_insp_def find_insp_def split: option.splits)

lemma create_effect:
  "(statuses_ok s \<longrightarrow> statuses_ok (create_inspection h s b nid token now now')) \<and>
   length (inspections (create_inspection h s b nid token now now')) = Suc (length (inspections s)) \<and>
   (\<forall>k < Suc (length (inspections s)).
      status (inspections (create_inspection h s b nid token now now') ! k) = ''completed'' \<longrightarrow>
      k < length (inspections s) \<and> status (inspections s ! k) = ''completed'')"
  by (auto simp add: create_inspection_def statuses_ok_def status_values_def nth_append)

lemma put_assigns_status:
  assumes "find_insp s rid = Some insp" and "p_status b = Some v"
  shows "map_option status (find_insp (snd (put_update s rid b now)) rid) = Some v"
  using assms by (simp add: put_update_def find_insp_set_insp assign_def)

lemma approve_completes:
  assumes "find_insp s rid = Some insp" and "aiReport insp = Some rep"
  shows "map_option status (find_insp (snd (approve_report s rid who now)) rid) = Some ''completed''"
  using assms by (simp add: approve_report_def find_insp_set_insp)

text \<open>
  A request that is neither the approval, nor the creation, nor mark-complete, nor a PUT
  update with a status, keeps the inspections.
\<close>

lemma keeps_step:
  assumes "\<forall>rid. rq \<noteq> MarkComplete rid"
    and "\<forall>rid b now. rq = PutUpdate rid b now \<longrightarrow> p_status b = None"
    and "\<forall>rid who now. rq \<noteq> ApproveReport rid who now"
    and "\<forall>b nid token now now'. rq \<noteq> Create b nid token now now'"
  shows "keeps_inspections s (step h s rq)"
proof (cases rq)
  case (Create b nid token now now')
  then show ?thesis using assms(4) by simp
next
  case (Upload req env)
  then show ?thesis by (simp add: keeps_upload)
next
  case (Notify req env)
  then show ?thesis by (simp add: keeps_notify)
next
  case (MarkComplete rid)
  then show ?thesis using assms(1) by simp
next
  case (Tire rid payload now)
  then show ?thesis by (simp add: keeps_tire)
next
  case (PostUpdate rid b now)
  then show ?thesis by (simp add: keeps_post_update)
next
  case (PutUpdate rid b now)
  with assms(2) have "p_status b = None" by simp
  then show ?thesis using PutUpdate by (simp add: keeps_put_update)
next
  case (GeneratePdf rid puppeteer pdf_ok now)
  then show ?thesis by (simp add: keeps_generate_pdf)
next
  case (EmailReport rid to env)
  then show ?thesis by (simp add: keeps_email_report)
next
  case (WorkerJob rid to env)
  then show ?thesis by (simp add: keeps_worker_job)
next
  case (FraudScore rid now)
  then show ?thesis by (simp add: keeps_fraud_score)
next
  case (GenerateAiReport rid configured md now)
  then show ?thesis by (simp add: keeps_generate)
next
  case (ApproveReport rid who now)
  then show ?thesis using assms(3) by simp
next
  case (SaveVinRecord v ts nid now)
  then show ?thesis by (simp add: keeps_save_vin)
next
  case (Detect req env)
  then show ?thesis by (simp add: keeps_roboflow_detect)
next
  case (Chat rid msg env)
  then show ?thesis by (simp add: keeps_chat)
qed

lemma lifecycle_step:
  assumes "statuses_ok s"
    and "\<forall>rid. rq \<noteq> MarkComplete rid"
    and "\<forall>rid b now. rq = PutUpdate rid b now \<longrightarrow> p_status b = None"
  shows
    "statuses_ok (step h s rq) \<and>
     length (inspections s) \<le> length (inspections (step h s rq)) \<and>
     (\<forall>k < length (inspections (step h s rq)).
        status (inspections (step h s rq) ! k) = ''completed'' \<longrightarrow>
        k < length (inspections s) \<and>
        (status (inspections s ! k) = ''completed'' \<or>
         (\<exists>rid who now. rq = ApproveReport rid who now \<and>
            find_insp s rid = Some (inspections s ! k) \<and>
            aiReport (inspections s ! k) \<noteq> None)))"
proof (cases "\<exists>rid who now. rq = ApproveReport rid who now")
  case True
  then obtain rid who now where rq: "rq = ApproveReport rid who now" by blast
  show ?thesis
    using assms(1) approve_effect [of s rid who now] approve_completed [of _ s rid who now]
    unfolding rq by auto
next
  case False
  note na = this
  show ?thesis
  proof (cases "\<exists>b nid token now now'. rq = Create b nid token now now'")
    case True
    then obtain b nid token now now' where rq: "rq = Create b nid token now now'" by blast
    show ?thesis
      using assms(1) create_effect [of s h b nid token now now'] unfolding rq by simp
  next
    case False
    have "keeps_inspections s (step h s rq)"
      using assms(2,3) na False by (intro keeps_step) auto
    then show ?thesis
      using assms(1) by (simp add: keeps_inspections_def)
  qed
qed

text \<open>
  C8, amended. Every handler that writes the document other than mark-complete and a PUT
  update that carries a status (creation, upload, notify, the tire update, the POST
  update, a PUT update without a status, PDF generation, the e-mailing of the report in
  the server and in the worker, scoring, report generation, report approval, the saving
  of a VIN record, the detection on request and the chat) keeps every status among
  pending, submitted, flagged and completed and removes no inspection. An inspection
  that is completed afterwards was there before, and either was completed already or is
  the inspection the approval found for its id, which had a report; the approval leaves
  every other inspection as it was and sets completed on the one it finds when that one
  has a report. A PUT update that carries a status assigns that value as it comes.
\<close>

theorem lifecycle_statuses:
  assumes "statuses_ok s"
    and "\<forall>rid. rq \<noteq> MarkComplete rid"
    and "\<forall>rid b now. rq = PutUpdate rid b now \<longrightarrow> p_status b = None"
  shows
    "statuses_ok (step h s rq) \<and>
     length (inspections s) \<le> length (inspections (step h s rq)) \<and>
     (\<forall>k < length (inspections (step h s rq)).
        status (inspections (step h s rq) ! k) = ''completed'' \<longrightarrow>
        k < length (inspections s) \<and>
        (status (inspections s ! k) = ''completed'' \<or>
         (\<exists>rid who now. rq = ApproveReport rid who now \<and>
            find_insp s rid = Some (inspections s ! k) \<and>
            aiReport (inspections s ! k) \<noteq> None))) \<and>
     (\<forall>rid who now k. k < length (inspections s) \<longrightarrow>
        inspections (step h s (ApproveReport rid who now)) ! k = inspections s ! k \<or>
        find_insp s rid = Some (inspections s ! k)) \<and>
     (\<forall>rid who now insp rep. find_insp s rid = Some insp \<and> aiReport insp = Some rep \<longrightarrow>
        map_option status (find_insp (step h s (ApproveReport rid who now)) rid)
          = Some ''completed'') \<and>
     (\<forall>rid b now insp v. find_insp s rid = Some insp \<and> p_status b = Some v \<longrightarrow>
        map_option status (find_insp (step h s (PutUpdate rid b now)) rid) = Some v)"
  using lifecycle_step [OF assms, of h] approve_completes [of s] put_assigns_status [of s]
    approve_others [of _ s]
  by simp

lemma ex_statuses_ok: "statuses_ok ex_store"
  by (simp add: statuses_ok_def ex_store_def ex_insp_def status_values_def)

text \<open>
  C8, as stated, fails: the admin PUT update assigns any status it is given, here
  \<^verbatim>\<open>archived\<close>, which is none of the four values.
\<close>

theorem put_status_counterexample:
  "statuses_ok ex_store \<and>
   map status (inspections (step ex_hash ex_store (PutUpdate ''i1'' ex_put_body 5))) = [''archived''] \<and>
   \<not> statuses_ok (step ex_hash ex_store (PutUpdate ''i1'' ex_put_body 5))"
  by (simp add: ex_statuses_ok put_update_def find_ex_insp set_insp_def assign_def
      statuses_ok_def status_values_def, simp add: ex_store_def ex_insp_def ex_put_body_def)

text \<open>The mark-complete handler writes \<^verbatim>\<open>complete\<close>, where the approval writes \<^verbatim>\<open>completed\<close>.\<close>

lemma mark_complete_status:
  "map status (inspections (snd (mark_complete ex_store ''i1''))) = [''complete'']"
  by (simp add: mark_complete_def find_ex_insp set_insp_def, simp add: ex_store_def ex_insp_def)

text \<open>
  In \<open>ex_reported\<close> the first inspection has a report and the second has none: the
  approval of the first completes it and leaves the second pending.
\<close>

lemma ex_reported_facts:
  "statuses_ok ex_reported"
  "length (inspections ex_reported) = 2"
  "status (inspections ex_reported ! 1) = ''pending''"
  "id_i (inspections ex_reported ! 1) = ''i3''"
  "map_option id_i (find_insp ex_reported ''i1'') = Some ''i1''"
  "map_option aiReport (find_insp ex_reported ''i1'') \<noteq> Some None"
  by (simp_all add: statuses_ok_def ex_reported_def ex_insp_def insp_c_def status_values_def
      find_insp_def)

theorem lifecycle_statuses_witness:
  "statuses_ok (step ex_hash ex_store (Upload ex_req ex_env)) \<and>
   statuses_ok (step ex_hash ex_store (Chat ''i1'' (Some ''hello'')
      \<lparr>nested = Some 7, openai_key = True, completion = Some ''hi'', iso = ''t''\<rparr>)) \<and>
   statuses_ok (step ex_hash ex_store (PutUpdate ''i1'' (ex_put_body\<lparr>p_status := None\<rparr>) 5)) \<and>
   statuses_ok (step ex_hash ex_reported (ApproveReport ''i1'' None 9)) \<and>
   map_option status (find_insp (step ex_hash ex_reported (ApproveReport ''i1'' None 9)) ''i1'')
     = Some ''completed'' \<and>
   status (inspections (step ex_hash ex_reported (ApproveReport ''i1'' None 9)) ! 1) = ''pending''"
proof -
  obtain insp rep where f: "find_insp ex_reported ''i1'' = Some insp"
    and r: "aiReport insp = Some rep" and i: "id_i insp = ''i1''"
    using ex_reported_facts(5,6) by (cases "find_insp ex_reported ''i1''") auto
  have o: "find_insp ex_reported ''i1'' \<noteq> Some (inspections ex_reported ! 1)"
    using f i ex_reported_facts(4) by auto
  note t = lifecycle_statuses [OF ex_reported_facts(1), of "ApproveReport ''i1'' None 9" ex_hash]
  from t have a: "statuses_ok (step ex_hash ex_reported (ApproveReport ''i1'' None 9))"
    by simp
  from t f r have b:
    "map_option status (find_insp (step ex_hash ex_reported (ApproveReport ''i1'' None 9)) ''i1'')
       = Some ''completed''"
    by blast
  from t have "\<forall>rid who now k. k < length (inspections ex_reported) \<longrightarrow>
        inspections (step ex_hash ex_reported (ApproveReport rid who now)) ! k
          = inspections ex_reported ! k \<or>
        find_insp ex_reported rid = Some (inspections ex_reported ! k)"
    by simp
  then have "inspections (step ex_hash ex_reported (ApproveReport ''i1'' None 9)) ! 1
          = inspections ex_reported ! 1 \<or>
        find_insp ex_reported ''i1'' = Some (inspections ex_reported ! 1)"
    using ex_reported_facts(2) by (metis one_less_numeral_iff semiring_norm(76))
  with o have c:
    "status (inspections (step ex_hash ex_reported (ApproveReport ''i1'' None 9)) ! 1) = ''pending''"
    using ex_reported_facts(3) by simp
  show ?thesis
    using lifecycle_statuses [OF ex_statuses_ok, of "Upload ex_req ex_env" ex_hash]
      lifecycle_statuses [OF ex_statuses_ok, of "Chat ''i1'' (Some ''hello'')
        \<lparr>nested = Some 7, openai_key = True, completion = Some ''hi'', iso = ''t''\<rparr>" ex_hash]
      lifecycle_statuses [OF ex_statuses_ok,
        of "PutUpdate ''i1'' (ex_put_body\<lparr>p_status := None\<rparr>) 5" ex_hash]
      a b c
    by simp
qed

end
